theory Spec2Isabelle
  imports Complex_Main "HOL-Library.Sublist"
begin

section \<open>Strings\<close>

text \<open>
  A string is a \<^typ>\<open>string\<close>: the bytes of the text in UTF-8. A character of the ASCII
  range is one byte, \<open>U+00A0\<close> is the two bytes \<open>C2 A0\<close>, \<open>U+FEFF\<close> the three bytes
  \<open>EF BB BF\<close>. \<open>startsWith\<close> and \<open>endsWith\<close> with an ASCII argument are
  \<^const>\<open>prefix\<close> and \<^const>\<open>suffix\<close>, and \<open>slice\<close> at an offset that counts ASCII
  characters is \<^const>\<open>drop\<close> or \<^const>\<open>take\<close>. A text with an unpaired surrogate has
  no encoding and is not covered; none of the functions below looks at surrogates.

  \<open>String.prototype.trim\<close> removes from both ends of a text the code points that
  ECMAScript calls \<open>WhiteSpace\<close> (\<open>U+0009\<close>, \<open>U+000B\<close>, \<open>U+000C\<close>, \<open>U+FEFF\<close> and the
  space separators of Unicode: \<open>U+0020\<close>, \<open>U+00A0\<close>, \<open>U+1680\<close>, \<open>U+2000\<close> to
  \<open>U+200A\<close>, \<open>U+202F\<close>, \<open>U+205F\<close>, \<open>U+3000\<close>) or \<open>LineTerminator\<close> (\<open>U+000A\<close>,
  \<open>U+000D\<close>, \<open>U+2028\<close>, \<open>U+2029\<close>); the class \<open>\s\<close> of a regular expression is the
  same set. These are their encodings, in the order of the code points.
\<close>

definition whiteSpaces :: "string list" where
  "whiteSpaces =
     [[CHR 0x09], [CHR 0x0A], [CHR 0x0B], [CHR 0x0C], [CHR 0x0D], [CHR 0x20],
      [CHR 0xC2, CHR 0xA0],
      [CHR 0xE1, CHR 0x9A, CHR 0x80],
      [CHR 0xE2, CHR 0x80, CHR 0x80], [CHR 0xE2, CHR 0x80, CHR 0x81],
      [CHR 0xE2, CHR 0x80, CHR 0x82], [CHR 0xE2, CHR 0x80, CHR 0x83],
      [CHR 0xE2, CHR 0x80, CHR 0x84], [CHR 0xE2, CHR 0x80, CHR 0x85],
      [CHR 0xE2, CHR 0x80, CHR 0x86], [CHR 0xE2, CHR 0x80, CHR 0x87],
      [CHR 0xE2, CHR 0x80, CHR 0x88], [CHR 0xE2, CHR 0x80, CHR 0x89],
      [CHR 0xE2, CHR 0x80, CHR 0x8A],
      [CHR 0xE2, CHR 0x80, CHR 0xA8], [CHR 0xE2, CHR 0x80, CHR 0xA9],
      [CHR 0xE2, CHR 0x80, CHR 0xAF],
      [CHR 0xE2, CHR 0x81, CHR 0x9F],
      [CHR 0xE3, CHR 0x80, CHR 0x80],
      [CHR 0xEF, CHR 0xBB, CHR 0xBF]]"

text \<open>The first of the texts \<open>ws\<close> that the text \<open>s\<close> begins with, if there is one.\<close>

definition spaceAt :: "string list \<Rightarrow> string \<Rightarrow> string option" where
  "spaceAt ws s = find (\<lambda>w. w \<noteq> [] \<and> prefix w s) ws"

text \<open>\<open>strip ws s\<close> is \<open>s\<close> without the texts of \<open>ws\<close> it begins with.\<close>

function strip :: "string list \<Rightarrow> string \<Rightarrow> string" where
  "strip ws s = (case spaceAt ws s of None \<Rightarrow> s | Some w \<Rightarrow> strip ws (drop (length w) s))"
  by pat_completeness auto
termination
proof (relation "measure (\<lambda>p. length (snd p))")
  show "wf (measure (\<lambda>p. length (snd p)))" by simp
next
  fix ws :: "string list" and s w :: string
  assume "spaceAt ws s = Some w"
  then have w: "w \<noteq> []" "prefix w s" by (auto simp: spaceAt_def find_Some_iff)
  then obtain a r where ar: "w = a # r" by (cases w) auto
  from w(2) have "length w \<le> length s" by (rule prefix_length_le)
  then have "length (drop (length w) s) < length s" unfolding ar by simp
  then show "((ws, drop (length w) s), (ws, s)) \<in> measure (\<lambda>p. length (snd p))" by simp
qed

declare strip.simps [simp del]

text \<open>\<open>s.trim()\<close>: the white space is removed at the start, then at the end, where a text
  ends with a code point when its reverse begins with the reversed encoding.\<close>

definition trim :: "string \<Rightarrow> string" where
  "trim s = rev (strip (map rev whiteSpaces) (rev (strip whiteSpaces s)))"

text \<open>\<open>Boolean(s)\<close> on a string: the empty string is the only falsy one.\<close>

definition truthyStr :: "string \<Rightarrow> bool" where
  "truthyStr s \<longleftrightarrow> s \<noteq> []"

section \<open>Values of \<open>JSON.parse\<close>\<close>

text \<open>
  The validator receives \<open>raw: unknown\<close>, the value \<open>JSON.parse\<close> returned. An object is
  the list of its own properties, looked up with \<^const>\<open>map_of\<close>.
\<close>

datatype json =
    JNull
  | JBool bool
  | JNum real
  | JStr string
  | JArr "json list"
  | JObj "(string \<times> json) list"

text \<open>\<open>!item\<close> is false on the truthy values; \<open>typeof item === "object"\<close> holds of
  \<open>null\<close>, arrays and objects.\<close>

fun truthy :: "json \<Rightarrow> bool" where
  "truthy JNull = False"
| "truthy (JBool b) = b"
| "truthy (JNum n) = (n \<noteq> 0)"
| "truthy (JStr s) = (s \<noteq> [])"
| "truthy (JArr xs) = True"
| "truthy (JObj kvs) = True"

fun typeofObject :: "json \<Rightarrow> bool" where
  "typeofObject JNull = True"
| "typeofObject (JArr xs) = True"
| "typeofObject (JObj kvs) = True"
| "typeofObject v = False"

text \<open>\<open>e.k\<close> on a value cast to \<open>Record<string, unknown>\<close>: \<open>undefined\<close> (here
  \<^const>\<open>None\<close>) unless the value is an object that has the property. None of the
  property names read below is a property of an array.\<close>

fun getProp :: "json \<Rightarrow> string \<Rightarrow> json option" where
  "getProp (JObj kvs) k = map_of kvs k"
| "getProp v k = None"

text \<open>\<open>typeof e.k === "string" ? e.k.trim() : ""\<close>\<close>

definition strField :: "json \<Rightarrow> string \<Rightarrow> string" where
  "strField e k = (case getProp e k of Some (JStr s) \<Rightarrow> trim s | _ \<Rightarrow> [])"

text \<open>\<open>xs.filter((a) => typeof a === "string")\<close>\<close>

fun onlyStrings :: "json list \<Rightarrow> string list" where
  "onlyStrings [] = []"
| "onlyStrings (JStr s # xs) = s # onlyStrings xs"
| "onlyStrings (v # xs) = onlyStrings xs"

text \<open>\<open>Array.isArray(e.k) ? e.k.filter(string).map(trim).filter(Boolean) : []\<close>\<close>

definition strArrayField :: "json \<Rightarrow> string \<Rightarrow> string list" where
  "strArrayField e k =
     (case getProp e k of
        Some (JArr xs) \<Rightarrow> filter truthyStr (map trim (onlyStrings xs))
      | _ \<Rightarrow> [])"

section \<open>The brief and the genre vocabulary\<close>

text \<open>\<open>interface Brief\<close> of \<open>fetch-events-ai\<close>. The handler casts the request's
  \<open>brief\<close> to it unchecked and guards every list with \<open>|| []\<close> or \<open>?.\<close>, so a list
  may be missing: \<^const>\<open>None\<close> is \<open>undefined\<close> or \<open>null\<close>. \<open>eventWindow\<close> is
  \<open>schedule?.eventWindow\<close>.\<close>

record Brief =
  artists :: "string list option"
  genres :: "string list option"
  venues :: "string list option"
  eventWindow :: "string option"

definition KNOWN_GENRES :: "string list" where
  "KNOWN_GENRES =
     [''Indie Rock'', ''Jazz'', ''Electronic'', ''Hip Hop'', ''Classical'', ''World Music'',
      ''Pop'', ''R&B'', ''Alternative'', ''Folk'', ''Punk'', ''Metal'']"

definition isAllGenresSelection :: "string list option \<Rightarrow> bool" where
  "isAllGenresSelection sel =
     (case sel of
        None \<Rightarrow> False
      | Some gs \<Rightarrow>
          if length gs = 0 then False
          else (let selected = set (filter truthyStr (map trim gs))
                in list_all (\<lambda>g. g \<in> selected) KNOWN_GENRES))"

section \<open>The platform\<close>

text \<open>
  \<open>new Date(string)\<close>, \<open>new URL(string)\<close>, \<open>JSON.parse\<close> and
  \<open>String.prototype.toLowerCase\<close> belong to the runtime, not to the repository: they are
  parameters of the model, and what is proved below holds of every runtime.
  \<^item> \<open>parseDate s\<close> is the time value of \<open>new Date(s)\<close> in milliseconds since the epoch,
    \<^const>\<open>None\<close> when it is \<open>NaN\<close>;
  \<^item> \<open>urlHost s\<close> is \<open>new URL(s).host\<close>, \<^const>\<open>None\<close> when the constructor throws;
  \<^item> \<open>jsonParse s\<close> is \<open>JSON.parse(s)\<close>, \<^const>\<open>None\<close> when it throws;
  \<^item> \<open>toLowerCase s\<close> is \<open>s.toLowerCase()\<close>, which follows the case mappings of the
    Unicode character database the runtime is built with.
\<close>

record platform =
  parseDate :: "string \<Rightarrow> int option"
  urlHost :: "string \<Rightarrow> string option"
  jsonParse :: "string \<Rightarrow> json option"
  toLowerCase :: "string \<Rightarrow> string"

text \<open>The twelve entries of the vocabulary are texts of the ASCII range, which every
  runtime lower-cases letter by letter: these are the results.\<close>

definition lowersVocabulary :: "platform \<Rightarrow> bool" where
  "lowersVocabulary P \<longleftrightarrow>
     map (toLowerCase P) KNOWN_GENRES =
       [''indie rock'', ''jazz'', ''electronic'', ''hip hop'', ''classical'', ''world music'',
        ''pop'', ''r&b'', ''alternative'', ''folk'', ''punk'', ''metal'']"

section \<open>The validator\<close>

text \<open>\<open>interface Event\<close> of \<open>fetch-events-ai\<close>; the two list fields carry the prefix
  \<open>event_\<close> because \<^const>\<open>artists\<close> and \<^const>\<open>genres\<close> are fields of the brief.\<close>

record Event =
  event_name :: string
  event_artists :: "string list"
  event_genres :: "string list"
  date :: string
  venue :: string
  event_url :: string

text \<open>The options of \<open>validateAndFilterEvents\<close> (without the logger). A \<open>Date\<close> is its
  time value, \<^const>\<open>None\<close> for an invalid date (\<open>NaN\<close>).\<close>

record opts =
  brief :: Brief
  allowedUrls :: "string set"
  allowedHosts :: "string set"
  start :: "int option"
  end' :: "int option"

text \<open>\<open>a < b\<close> on two dates compares the time values; a comparison with \<open>NaN\<close> is
  false.\<close>

fun dateLess :: "int option \<Rightarrow> int option \<Rightarrow> bool" where
  "dateLess (Some a) (Some b) = (a < b)"
| "dateLess a b = False"

text \<open>\<open>(opts.brief.genres || []).map((g) => g.toLowerCase().trim()).filter(Boolean)\<close>:
  every entry is lower-cased, then trimmed.\<close>

definition preferredGenres :: "platform \<Rightarrow> opts \<Rightarrow> string set" where
  "preferredGenres P o' =
     set (filter truthyStr
       (map trim (map (toLowerCase P)
          (case genres (brief o') of None \<Rightarrow> [] | Some gs \<Rightarrow> gs))))"

definition applyGenreFilter :: "platform \<Rightarrow> opts \<Rightarrow> bool" where
  "applyGenreFilter P o' \<longleftrightarrow>
     preferredGenres P o' \<noteq> {} \<and> \<not> isAllGenresSelection (genres (brief o'))"

text \<open>One pass of the \<open>for\<close> loop: \<^const>\<open>None\<close> is \<open>continue\<close>, \<open>Some e\<close> is
  \<open>out.push(e)\<close>. The last test is
  \<open>genres.some((g) => preferredGenres.has(g.toLowerCase().trim()))\<close>: one of the item's
  genres, lower-cased and then trimmed, is a preferred genre.\<close>

definition validateItem :: "platform \<Rightarrow> opts \<Rightarrow> json \<Rightarrow> Event option" where
  "validateItem P o' item =
     (if \<not> truthy item \<or> \<not> typeofObject item then None
      else
        let name = strField item ''event_name'';
            ven = strField item ''venue'';
            dat = strField item ''date'';
            url = strField item ''event_url'';
            arts = strArrayField item ''artists'';
            gens = strArrayField item ''genres''
        in
          if \<not> truthyStr name \<or> \<not> truthyStr dat \<or> \<not> truthyStr ven \<or> \<not> truthyStr url then None
          else
            (case parseDate P dat of
               None \<Rightarrow> None
             | Some parsed \<Rightarrow>
                 if dateLess (Some parsed) (start o') \<or> dateLess (end' o') (Some parsed) then None
                 else
                   (case urlHost P url of
                      None \<Rightarrow> None
                    | Some host \<Rightarrow>
                        let urlOk = (url \<in> allowedUrls o' \<or> (truthyStr host \<and> host \<in> allowedHosts o'))
                        in
                          if \<not> urlOk then None
                          else if applyGenreFilter P o' \<and>
                                  \<not> list_ex (\<lambda>k. k \<in> preferredGenres P o')
                                      (map trim (map (toLowerCase P) gens))
                          then None
                          else Some \<lparr>event_name = name, event_artists = arts, event_genres = gens,
                                      date = dat, venue = ven, event_url = url\<rparr>)))"

fun collect :: "platform \<Rightarrow> opts \<Rightarrow> json list \<Rightarrow> Event list" where
  "collect P o' [] = []"
| "collect P o' (item # rest) =
     (case validateItem P o' item of
        None \<Rightarrow> collect P o' rest
      | Some e \<Rightarrow> e # collect P o' rest)"

text \<open>\<open>out.filter\<close> with the set \<open>seen\<close>: the set is the state of the callback.\<close>

fun dedupe :: "string set \<Rightarrow> Event list \<Rightarrow> Event list" where
  "dedupe seen [] = []"
| "dedupe seen (e # es) =
     (if event_url e \<in> seen then dedupe seen es
      else e # dedupe (insert (event_url e) seen) es)"

definition validateAndFilterEvents :: "platform \<Rightarrow> opts \<Rightarrow> json \<Rightarrow> Event list" where
  "validateAndFilterEvents P o' raw =
     (case raw of
        JArr items \<Rightarrow> take 10 (dedupe {} (collect P o' items))
      | _ \<Rightarrow> [])"

section \<open>Dates\<close>

text \<open>
  The \<open>Date\<close> operations of the runtime, after the ECMAScript specification (section
  21.4.1): a time value is a number of milliseconds since 1970-01-01T00:00:00Z, all
  arithmetic is in UTC, and \<open>TimeClip\<close> turns a value beyond 8.64e15 in magnitude into
  \<open>NaN\<close> (\<^const>\<open>None\<close>). \<open>YearFromTime\<close> is specified as the largest year whose first
  day is not after the day of the time value; it is computed here by counting up from a
  year that is not too late.
\<close>

definition msPerDay :: int where
  "msPerDay = 86400000"

definition Day :: "int \<Rightarrow> int" where
  "Day t = t div msPerDay"

definition TimeWithinDay :: "int \<Rightarrow> int" where
  "TimeWithinDay t = t mod msPerDay"

definition DaysInYear :: "int \<Rightarrow> int" where
  "DaysInYear y =
     (if y mod 4 \<noteq> 0 then 365 else if y mod 100 \<noteq> 0 then 366
      else if y mod 400 \<noteq> 0 then 365 else 366)"

definition DayFromYear :: "int \<Rightarrow> int" where
  "DayFromYear y =
     365 * (y - 1970) + (y - 1969) div 4 - (y - 1901) div 100 + (y - 1601) div 400"

text \<open>Each year begins \<^const>\<open>DaysInYear\<close> days after the one before.\<close>

lemma div_succ:
  fixes x k :: int
  assumes k: "0 < k"
  shows "(x + 1) div k = x div k + (if (x + 1) mod k = 0 then 1 else 0)"
proof -
  have x: "x = k * (x div k) + x mod k" by simp
  have r: "0 \<le> x mod k" "x mod k < k" using k by simp_all
  show ?thesis
  proof (cases "x mod k = k - 1")
    case True
    then have "x mod k + 1 = k" by simp
    with x have "x + 1 = k * (x div k) + k" by linarith
    then have e: "x + 1 = k * (x div k + 1) + 0" by (simp add: algebra_simps)
    have "(x + 1) div k = x div k + 1" by (rule int_div_pos_eq [OF e]) (use k in simp_all)
    moreover have "(x + 1) mod k = 0" by (rule int_mod_pos_eq [OF e]) (use k in simp_all)
    ultimately show ?thesis by simp
  next
    case False
    have e: "x + 1 = k * (x div k) + (x mod k + 1)" using x by simp
    have b: "0 \<le> x mod k + 1" "x mod k + 1 < k" using r False by simp_all
    have "(x + 1) div k = x div k" by (rule int_div_pos_eq [OF e b])
    moreover have "(x + 1) mod k = x mod k + 1" by (rule int_mod_pos_eq [OF e b])
    ultimately show ?thesis using r by simp
  qed
qed

lemma mod_chain:
  fixes y :: int
  shows "y mod 400 = 0 \<Longrightarrow> y mod 100 = 0" and "y mod 100 = 0 \<Longrightarrow> y mod 4 = 0"
proof -
  have a: "(100::int) dvd 400" "(4::int) dvd 100" by simp_all
  show "y mod 400 = 0 \<Longrightarrow> y mod 100 = 0"
    using dvd_trans [OF a(1), of y] by (simp add: mod_eq_0_iff_dvd)
  show "y mod 100 = 0 \<Longrightarrow> y mod 4 = 0"
    using dvd_trans [OF a(2), of y] by (simp add: mod_eq_0_iff_dvd)
qed

lemma DayFromYear_step: "DayFromYear (y + 1) = DayFromYear y + DaysInYear y"
proof -
  have a: "(y + 1 - 1969) div 4 = (y - 1969) div 4 + (if y mod 4 = 0 then 1 else 0)"
    using div_succ [of 4 "y - 1969"] mod_mult_self1 [of y "-492" 4] by (simp add: algebra_simps)
  have b: "(y + 1 - 1901) div 100 = (y - 1901) div 100 + (if y mod 100 = 0 then 1 else 0)"
    using div_succ [of 100 "y - 1901"] mod_mult_self1 [of y "-19" 100] by (simp add: algebra_simps)
  have c: "(y + 1 - 1601) div 400 = (y - 1601) div 400 + (if y mod 400 = 0 then 1 else 0)"
    using div_succ [of 400 "y - 1601"] mod_mult_self1 [of y "-4" 400] by (simp add: algebra_simps)
  note d = mod_chain [of y]
  show ?thesis
    unfolding DayFromYear_def DaysInYear_def a b c using d by (auto simp: algebra_simps)
qed

lemma DayFromYear_less: "DayFromYear y < DayFromYear (y + 1)"
  by (simp add: DayFromYear_step DaysInYear_def)

function yearUp :: "int \<Rightarrow> int \<Rightarrow> int" where
  "yearUp y d = (if DayFromYear (y + 1) \<le> d then yearUp (y + 1) d else y)"
  by pat_completeness auto
termination
proof (relation "measure (\<lambda>(y, d). nat (d + 1 - DayFromYear (y + 1)))")
  show "wf (measure (\<lambda>(y, d). nat (d + 1 - DayFromYear (y + 1))))"
    by simp
next
  fix y d :: int
  assume a: "DayFromYear (y + 1) \<le> d"
  show "((y + 1, d), (y, d)) \<in> measure (\<lambda>(y, d). nat (d + 1 - DayFromYear (y + 1)))"
    using a DayFromYear_less [of "y + 1"] by simp
qed

declare yearUp.simps [simp del]

definition yearOfDay :: "int \<Rightarrow> int" where
  "yearOfDay d = yearUp (1970 + (if 0 \<le> d then d div 366 else d div 365)) d"

definition YearFromTime :: "int \<Rightarrow> int" where
  "YearFromTime t = yearOfDay (Day t)"

definition InLeapYear :: "int \<Rightarrow> int" where
  "InLeapYear t = (if DaysInYear (YearFromTime t) = 366 then 1 else 0)"

definition DayWithinYear :: "int \<Rightarrow> int" where
  "DayWithinYear t = Day t - DayFromYear (YearFromTime t)"

definition MonthFromTime :: "int \<Rightarrow> int" where
  "MonthFromTime t =
     (let d = DayWithinYear t; l = InLeapYear t in
      if d < 31 then 0 else if d < 59 + l then 1 else if d < 90 + l then 2
      else if d < 120 + l then 3 else if d < 151 + l then 4 else if d < 181 + l then 5
      else if d < 212 + l then 6 else if d < 243 + l then 7 else if d < 273 + l then 8
      else if d < 304 + l then 9 else if d < 334 + l then 10 else 11)"

definition DateFromTime :: "int \<Rightarrow> int" where
  "DateFromTime t =
     (let d = DayWithinYear t; l = InLeapYear t; m = MonthFromTime t in
      if m = 0 then d + 1 else if m = 1 then d - 30 else if m = 2 then d - 58 - l
      else if m = 3 then d - 89 - l else if m = 4 then d - 119 - l
      else if m = 5 then d - 150 - l else if m = 6 then d - 180 - l
      else if m = 7 then d - 211 - l else if m = 8 then d - 242 - l
      else if m = 9 then d - 272 - l else if m = 10 then d - 303 - l else d - 333 - l)"

definition WeekDay :: "int \<Rightarrow> int" where
  "WeekDay t = (Day t + 4) mod 7"

definition MakeTime :: "int \<Rightarrow> int \<Rightarrow> int \<Rightarrow> int \<Rightarrow> int" where
  "MakeTime h m s milli = h * 3600000 + m * 60000 + s * 1000 + milli"

text \<open>The day within its year on which month \<open>mn\<close> (0 to 11) begins, \<open>l\<close> being 1 in a
  leap year.\<close>

definition monthStart :: "int \<Rightarrow> int \<Rightarrow> int" where
  "monthStart mn l =
     (if mn = 0 then 0 else if mn = 1 then 31 else if mn = 2 then 59 + l
      else if mn = 3 then 90 + l else if mn = 4 then 120 + l else if mn = 5 then 151 + l
      else if mn = 6 then 181 + l else if mn = 7 then 212 + l else if mn = 8 then 243 + l
      else if mn = 9 then 273 + l else if mn = 10 then 304 + l else 334 + l)"

text \<open>\<open>MakeDay\<close>: the day number of the first of month \<open>mn\<close> of year \<open>ym\<close>, plus
  \<open>dt - 1\<close>. A month beyond 0..11 carries into the year and a date beyond the month
  carries into the following days.\<close>

definition MakeDay :: "int \<Rightarrow> int \<Rightarrow> int \<Rightarrow> int" where
  "MakeDay year month dt =
     (let ym = year + month div 12; mn = month mod 12
      in DayFromYear ym + monthStart mn (if DaysInYear ym = 366 then 1 else 0) + dt - 1)"

definition MakeDate :: "int \<Rightarrow> int \<Rightarrow> int" where
  "MakeDate day time = day * msPerDay + time"

definition TimeClip :: "int \<Rightarrow> int option" where
  "TimeClip t = (if \<bar>t\<bar> \<le> 8640000000000000 then Some t else None)"

text \<open>The methods of \<open>Date\<close> that the resolver calls, on the time value of the receiver.
  The getters are only called on a valid date.\<close>

definition setUTCDate :: "int option \<Rightarrow> int \<Rightarrow> int option" where
  "setUTCDate tv dt =
     (case tv of
        None \<Rightarrow> None
      | Some t \<Rightarrow>
          TimeClip (MakeDate (MakeDay (YearFromTime t) (MonthFromTime t) dt) (TimeWithinDay t)))"

definition setUTCHours :: "int option \<Rightarrow> int \<Rightarrow> int \<Rightarrow> int \<Rightarrow> int \<Rightarrow> int option" where
  "setUTCHours tv h m s milli =
     (case tv of
        None \<Rightarrow> None
      | Some t \<Rightarrow> TimeClip (MakeDate (Day t) (MakeTime h m s milli)))"

text \<open>\<open>Date.UTC\<close> reads a year from 0 to 99 as a year of the twentieth century.\<close>

definition Date_UTC :: "int \<Rightarrow> int \<Rightarrow> int \<Rightarrow> int \<Rightarrow> int \<Rightarrow> int \<Rightarrow> int \<Rightarrow> int option" where
  "Date_UTC y m dt h mi s milli =
     (let yr = (if 0 \<le> y \<and> y \<le> 99 then 1900 + y else y)
      in TimeClip (MakeDate (MakeDay yr m dt) (MakeTime h mi s milli)))"

section \<open>The time window\<close>

text \<open>\<open>getTimeWindowRange\<close> reads the clock with \<open>new Date()\<close>; the reading, a valid
  time value, is the argument \<open>now\<close>. The third field of the result, the description made
  of the two ISO dates, is built from \<open>start\<close> and \<open>end\<close> and is left out.\<close>

record TimeWindow =
  w_start :: "int option"
  w_end :: "int option"

definition getTimeWindowRange :: "int \<Rightarrow> string \<Rightarrow> TimeWindow" where
  "getTimeWindowRange now eventWindow' =
     (let normalized = (if truthyStr eventWindow' then eventWindow' else ''This month'') in
      if normalized = ''This weekend'' then
        (let daysUntilSunday = (7 - WeekDay now) mod 7;
             e1 = setUTCDate (Some now) (DateFromTime now + daysUntilSunday);
             e2 = setUTCHours e1 23 59 59 999
         in \<lparr>w_start = Some now, w_end = e2\<rparr>)
      else if normalized = ''Next 7 days'' then
        \<lparr>w_start = Some now, w_end = setUTCDate (Some now) (DateFromTime now + 7)\<rparr>
      else if normalized = ''Next 2 weeks'' then
        \<lparr>w_start = Some now, w_end = setUTCDate (Some now) (DateFromTime now + 14)\<rparr>
      else
        (let y = YearFromTime now;
             m = MonthFromTime now;
             last = Date_UTC y (m + 1) 0 23 59 59 999
         in \<lparr>w_start = Some now, w_end = (case last of None \<Rightarrow> None | Some t \<Rightarrow> TimeClip t)\<rparr>))"

section \<open>The prompt's genre lines\<close>

text \<open>\<open>Array.prototype.join\<close> on strings.\<close>

fun join :: "string \<Rightarrow> string list \<Rightarrow> string" where
  "join sep [] = []"
| "join sep [x] = x"
| "join sep (x # y # ys) = x @ sep @ join sep (y # ys)"

text \<open>\<open>!brief.genres?.length\<close>\<close>

definition noLength :: "string list option \<Rightarrow> bool" where
  "noLength sel = (case sel of None \<Rightarrow> True | Some gs \<Rightarrow> length gs = 0)"

text \<open>\<open>buildPrompt\<close> is one template literal. The genre selection enters it at two
  places: the value printed after \<open>preferred_genres:\<close> and the genre line of the hard
  requirements. These are the two expressions.\<close>

definition promptPreferredGenres :: "Brief \<Rightarrow> string" where
  "promptPreferredGenres b =
     (let allGenres = isAllGenresSelection (genres b) in
      if noLength (genres b) \<or> allGenres then ''any genre''
      else join '', '' (case genres b of None \<Rightarrow> [] | Some gs \<Rightarrow> gs))"

definition promptGenreRule :: "Brief \<Rightarrow> string" where
  "promptGenreRule b =
     (if isAllGenresSelection (genres b) \<or> noLength (genres b)
      then ''- genre: no filtering required.'' @ [CHR 0x0A]
      else ''- genre MUST include at least one of preferred_genres.'' @ [CHR 0x0A])"

section \<open>Reading the model's output\<close>

text \<open>The \<open>try\<close> block of the handler that turns the model's text into events; the
  \<open>catch\<close> gives the empty list, also when \<open>JSON.parse\<close> throws.\<close>

definition stripFences :: "string \<Rightarrow> string" where
  "stripFences content =
     (let c0 = trim content;
          c1 = (if prefix ''```json'' c0 then drop 7 c0
                else if prefix ''```'' c0 then drop 3 c0 else c0);
          c2 = (if suffix ''```'' c1 then take (length c1 - 3) c1 else c1)
      in trim c2)"

definition parseModelOutput :: "platform \<Rightarrow> opts \<Rightarrow> string \<Rightarrow> Event list" where
  "parseModelOutput P o' content =
     (case jsonParse P (stripFences content) of
        None \<Rightarrow> []
      | Some parsed \<Rightarrow> validateAndFilterEvents P o' parsed)"

section \<open>Search queries and sources\<close>

definition VENUE_DOMAINS :: "(string \<times> string list) list" where
  "VENUE_DOMAINS =
     [(''barby'', [''barby.co.il'']),
      (''teder'', [''teder.fm'']),
      (''levontin7'', [''levontin7.com'']),
      (''kuli-alma'', [''facebook.com'', ''instagram.com'']),
      (''ozen-bar'', [''ozen.co.il'']),
      (''suzanne-dellal'', [''suzannedellal.org.il'']),
      (''artport'', [''artport.art'']),
      (''secret-telaviv'', [''secrettelaviv.com'']),
      (''go-out'', [''go-out.co'']),
      (''eventim'', [''eventim.co.il'']),
      (''ticketmaster'', [''ticketmaster.co.il'']),
      (''tlv-municipality'', [''tel-aviv.gov.il''])]"

text \<open>The decimal digits of a number, as a template literal prints it.\<close>

definition digit :: "nat \<Rightarrow> char" where
  "digit n = ''0123456789'' ! n"

fun showNat :: "nat \<Rightarrow> string" where
  "showNat n =
     (if n < 10 then [digit n]
      else showNat (n div 10) @ [digit (n mod 10)])"

declare showNat.simps [simp del]

text \<open>\<open>Array.from(new Set(xs))\<close>: the elements in the order of their first
  occurrence.\<close>

fun fromSet :: "'a list \<Rightarrow> 'a list \<Rightarrow> 'a list" where
  "fromSet seen [] = []"
| "fromSet seen (x # xs) =
     (if x \<in> set seen then fromSet seen xs else x # fromSet (x # seen) xs)"

text \<open>The query of one venue identifier, \<^const>\<open>None\<close> where the loop says
  \<open>continue\<close>: the identifier has no entry, or no first domain.\<close>

definition venueQuery :: "nat \<Rightarrow> string \<Rightarrow> string option" where
  "venueQuery year venueId =
     (let domains = (case map_of VENUE_DOMAINS venueId of None \<Rightarrow> [] | Some ds \<Rightarrow> ds) in
      case domains of
        [] \<Rightarrow> None
      | domain # _ \<Rightarrow>
          if \<not> truthyStr domain then None
          else Some (''site:'' @ domain @ '' Tel Aviv events '' @ showNat year))"

fun pushQueries :: "nat \<Rightarrow> string list \<Rightarrow> string list" where
  "pushQueries year [] = []"
| "pushQueries year (venueId # rest) =
     (case venueQuery year venueId of
        None \<Rightarrow> pushQueries year rest
      | Some q \<Rightarrow> q # pushQueries year rest)"

text \<open>\<open>year\<close> is \<open>new Date().getFullYear()\<close>.\<close>

definition buildSearchQueries :: "nat \<Rightarrow> Brief \<Rightarrow> string list" where
  "buildSearchQueries year b =
     (let venueIds = (case venues b of
                        None \<Rightarrow> map fst VENUE_DOMAINS
                      | Some vs \<Rightarrow> if length vs \<noteq> 0 then vs else map fst VENUE_DOMAINS);
          queries = pushQueries year venueIds
      in take 6 (fromSet [] queries))"

record SourceDoc =
  url :: string
  title :: "string option"
  markdown :: string

text \<open>The pattern of \<open>extractUrls\<close>, \<open>https?://\<close> and then one or more characters
  that are neither white space nor one of \<open>) ] } > " '\<close>, matched from left to
  right. \<open>urlCharAt s\<close> says that \<open>s\<close> begins with such a character, and \<open>urlRun s\<close> is
  the number of bytes of the characters of this kind that \<open>s\<close> begins with.\<close>

definition delimiter :: "char \<Rightarrow> bool" where
  "delimiter c \<longleftrightarrow>
     c = CHR '')'' \<or> c = CHR '']'' \<or> c = CHR ''}'' \<or> c = CHR ''>'' \<or> c = CHR 0x22 \<or> c = CHR 0x27"

fun urlCharAt :: "string \<Rightarrow> bool" where
  "urlCharAt [] = False"
| "urlCharAt (c # cs) = (spaceAt whiteSpaces (c # cs) = None \<and> \<not> delimiter c)"

fun urlRun :: "string \<Rightarrow> nat" where
  "urlRun [] = 0"
| "urlRun (c # cs) = (if urlCharAt (c # cs) then Suc (urlRun cs) else 0)"

definition schemeLength :: "string \<Rightarrow> nat option" where
  "schemeLength s =
     (if prefix ''https://'' s \<and> urlCharAt (drop 8 s) then Some 8
      else if prefix ''http://'' s \<and> urlCharAt (drop 7 s) then Some 7
      else None)"

function matchAll :: "string \<Rightarrow> string list" where
  "matchAll [] = []"
| "matchAll (c # cs) =
     (case schemeLength (c # cs) of
        None \<Rightarrow> matchAll cs
      | Some n \<Rightarrow>
          take (n + urlRun (drop n (c # cs))) (c # cs)
            # matchAll (drop (n + urlRun (drop n (c # cs))) (c # cs)))"
  by pat_completeness auto
termination
proof (relation "measure length")
  show "wf (measure length)" by simp
next
  fix c :: char and cs :: string
  show "(cs, c # cs) \<in> measure length" by simp
next
  fix c :: char and cs :: string and n :: nat
  assume "schemeLength (c # cs) = Some n"
  then have "0 < n" by (auto simp: schemeLength_def split: if_splits)
  then have "length (drop (n + urlRun (drop n (c # cs))) (c # cs)) < length (c # cs)" by simp
  then show "(drop (n + urlRun (drop n (c # cs))) (c # cs), c # cs) \<in> measure length" by simp
qed

declare matchAll.simps [simp del]

definition extractUrls :: "string \<Rightarrow> string list" where
  "extractUrls text = fromSet [] (matchAll text)"

text \<open>The two sets of \<open>buildAllowedUrlSets\<close>: every source's own address and the
  addresses found in its text, and the hosts of those that \<open>new URL\<close> accepts.\<close>

definition allowedUrlList :: "SourceDoc list \<Rightarrow> string list" where
  "allowedUrlList sources = concat (map (\<lambda>s. url s # extractUrls (markdown s)) sources)"

definition buildAllowedUrlSets :: "platform \<Rightarrow> SourceDoc list \<Rightarrow> string set \<times> string set" where
  "buildAllowedUrlSets P sources =
     (set (allowedUrlList sources), set (List.map_filter (urlHost P) (allowedUrlList sources)))"

text \<open>First of each address, as the \<open>Map\<close> of \<open>gatherSources\<close> keeps them.\<close>

fun firstByUrl :: "string set \<Rightarrow> SourceDoc list \<Rightarrow> SourceDoc list" where
  "firstByUrl seen [] = []"
| "firstByUrl seen (s # rest) =
     (if url s \<in> seen then firstByUrl seen rest
      else s # firstByUrl (insert (url s) seen) rest)"

section \<open>The run\<close>

text \<open>
  What a run of the \<open>fetch-events-ai\<close> handler reads from outside: the configured key,
  the clock, the search provider and the model gateway. \<open>firecrawlSearch q\<close> is the list
  \<open>firecrawlSearch\<close> resolves to for the query (\<^const>\<open>None\<close> when it rejects), and
  \<open>aiGateway\<close> is the gateway's reply to the one request of the run (\<^const>\<open>None\<close> when
  \<open>fetch\<close> or \<open>json()\<close> rejects). The calls a run makes are returned beside the
  response, in order. The text of the prompt and the fields of the response that repeat
  the request (trace id, time stamp, brief parameters) are left out.
\<close>

datatype effect = FirecrawlSearch string | AiGatewayCall

record aiReply =
  ai_ok :: bool
  ai_status :: nat
  ai_content :: "string option"
  ai_finish_reason :: "string option"

record world =
  LOVABLE_API_KEY :: "string option"
  clock :: int
  localYear :: nat
  firecrawlSearch :: "string \<Rightarrow> SourceDoc list option"
  aiGateway :: "aiReply option"

text \<open>\<open>body\<close> is \<^const>\<open>None\<close> when \<open>req.json()\<close> throws; the brief in it is
  \<^const>\<open>None\<close> when it is missing or falsy.\<close>

record Request =
  httpMethod :: string
  body :: "Brief option option"

datatype responseBody =
    NoBody
  | ErrorBody string
  | ThrownError
  | EventsBody "Event list" nat "string option"

record Response =
  status :: nat
  payload :: responseBody

definition gatherSources :: "world \<Rightarrow> Brief \<Rightarrow> SourceDoc list \<times> effect list" where
  "gatherSources W b =
     (let queries = buildSearchQueries (localYear W) b in
      if length queries = 0 then ([], [])
      else
        let results = map (\<lambda>q. case firecrawlSearch W q of None \<Rightarrow> [] | Some docs \<Rightarrow> docs) queries;
            flattened = concat results
        in (take 8 (firstByUrl {} flattened), map FirecrawlSearch queries))"

text \<open>\<open>schedule?.eventWindow || "This month"\<close>\<close>

definition windowOf :: "Brief \<Rightarrow> string" where
  "windowOf b =
     (case eventWindow b of
        None \<Rightarrow> ''This month''
      | Some w \<Rightarrow> if truthyStr w then w else ''This month'')"

definition handler :: "platform \<Rightarrow> world \<Rightarrow> Request \<Rightarrow> Response \<times> effect list" where
  "handler P W req =
     (if httpMethod req = ''OPTIONS'' then (\<lparr>status = 200, payload = NoBody\<rparr>, [])
      else
        (case body req of
           None \<Rightarrow> (\<lparr>status = 500, payload = ThrownError\<rparr>, [])
         | Some None \<Rightarrow> (\<lparr>status = 400, payload = ErrorBody ''Brief is required''\<rparr>, [])
         | Some (Some b) \<Rightarrow>
             if \<not> (case LOVABLE_API_KEY W of None \<Rightarrow> False | Some k \<Rightarrow> truthyStr k)
             then (\<lparr>status = 500, payload = ErrorBody ''AI service not configured''\<rparr>, [])
             else
               (let sources = fst (gatherSources W b);
                    searches = snd (gatherSources W b)
                in
                  if length sources = 0
                  then (\<lparr>status = 200, payload = EventsBody [] 0 None\<rparr>, searches)
                  else
                    (let window = getTimeWindowRange (clock W) (windowOf b);
                         urls = fst (buildAllowedUrlSets P sources);
                         hosts = snd (buildAllowedUrlSets P sources);
                         calls = searches @ [AiGatewayCall]
                     in
                       (case aiGateway W of
                          None \<Rightarrow> (\<lparr>status = 500, payload = ThrownError\<rparr>, calls)
                        | Some r \<Rightarrow>
                            if \<not> ai_ok r then
                              (if ai_status r = 429
                               then (\<lparr>status = 429,
                                      payload = ErrorBody
                                        ''Rate limit exceeded, please try again later''\<rparr>,
                                     calls)
                               else if ai_status r = 402
                               then (\<lparr>status = 402, payload = ErrorBody ''AI credits exhausted''\<rparr>,
                                     calls)
                               else (\<lparr>status = 500, payload = ErrorBody ''AI service error''\<rparr>,
                                     calls))
                            else
                              (let content = (case ai_content r of
                                                None \<Rightarrow> ''[]''
                                              | Some c \<Rightarrow> if truthyStr c then c else ''[]'');
                                   events = parseModelOutput P
                                              \<lparr>brief = b, allowedUrls = urls, allowedHosts = hosts,
                                               start = w_start window, end' = w_end window\<rparr>
                                              content
                               in (\<lparr>status = 200,
                                    payload = EventsBody events (length sources)
                                                (ai_finish_reason r)\<rparr>,
                                   calls)))))))"

section \<open>The digest\<close>








subsection \<open>\<open>formatWhatsAppMessage\<close>\<close>







subsection \<open>\<open>formatEmailHtml\<close>\<close>










section \<open>A sample platform\<close>

text \<open>
  A small platform on which the theorems below are evaluated at concrete inputs. It reads
  less than the runtime does: \<open>isoDate\<close> reads a date written \<open>YYYY-MM-DD\<close> as midnight
  UTC of that day and nothing else; \<open>httpHost\<close> reads the host of an \<open>http\<close> or
  \<open>https\<close> address as the characters between the scheme and the first \<open>/\<close>, \<open>?\<close> or
  \<open>#\<close>; \<open>readJson\<close> reads JSON texts whose strings have no escapes and whose numbers
  are unsigned integers, the last of two equal keys winning as in \<open>JSON.parse\<close>;
  \<open>asciiLower\<close> maps \<open>A\<close>..\<open>Z\<close> to \<open>a\<close>..\<open>z\<close> and leaves every other byte, which is what
  \<open>toLowerCase\<close> does to a text of the ASCII range.
\<close>

definition lowerChar :: "char \<Rightarrow> char" where
  "lowerChar c =
     (let n = (of_char c :: nat) in if 65 \<le> n \<and> n \<le> 90 then char_of (n + 32) else c)"

definition asciiLower :: "string \<Rightarrow> string" where
  "asciiLower s = map lowerChar s"

definition isDigit :: "char \<Rightarrow> bool" where
  "isDigit c \<longleftrightarrow> 48 \<le> (of_char c :: nat) \<and> (of_char c :: nat) \<le> 57"

definition digitsVal :: "string \<Rightarrow> int" where
  "digitsVal s = foldl (\<lambda>acc c. 10 * acc + (int (of_char c) - 48)) 0 s"

definition isoDate :: "string \<Rightarrow> int option" where
  "isoDate s =
     (if length s = 10 \<and> s ! 4 = CHR ''-'' \<and> s ! 7 = CHR ''-''
         \<and> list_all isDigit (take 4 s @ take 2 (drop 5 s) @ drop 8 s)
      then
        let y = digitsVal (take 4 s); m = digitsVal (take 2 (drop 5 s)); d = digitsVal (drop 8 s)
        in if 1 \<le> m \<and> m \<le> 12 \<and> 1 \<le> d \<and> d \<le> 31
           then TimeClip (MakeDate (MakeDay y (m - 1) d) 0) else None
      else None)"

definition httpHost :: "string \<Rightarrow> string option" where
  "httpHost s =
     (case (if prefix ''https://'' s then Some (drop 8 s)
            else if prefix ''http://'' s then Some (drop 7 s) else None) of
        None \<Rightarrow> None
      | Some r \<Rightarrow>
          (let h = takeWhile (\<lambda>c. c \<noteq> CHR ''/'' \<and> c \<noteq> CHR ''?'' \<and> c \<noteq> CHR ''#'') r
           in if h = [] then None else Some h))"

definition jsonWs :: "char \<Rightarrow> bool" where
  "jsonWs c \<longleftrightarrow> c = CHR 0x20 \<or> c = CHR 0x09 \<or> c = CHR 0x0A \<or> c = CHR 0x0D"

text \<open>A string after its opening quote: the characters up to the closing quote. Escapes
  and control characters are not read.\<close>

definition readString :: "string \<Rightarrow> (string \<times> string) option" where
  "readString s =
     (let body = takeWhile (\<lambda>c. c \<noteq> CHR 0x22) s; rest = dropWhile (\<lambda>c. c \<noteq> CHR 0x22) s
      in if rest = [] \<or> list_ex (\<lambda>c. c = CHR 0x5C \<or> (of_char c :: nat) < 32) body then None
         else Some (body, tl rest))"

fun readValue :: "nat \<Rightarrow> string \<Rightarrow> (json \<times> string) option"
  and readItems :: "nat \<Rightarrow> string \<Rightarrow> (json list \<times> string) option"
  and readMembers :: "nat \<Rightarrow> string \<Rightarrow> ((string \<times> json) list \<times> string) option"
where
  "readValue 0 s = None"
| "readValue (Suc n) s =
     (case dropWhile jsonWs s of
        [] \<Rightarrow> None
      | c # cs \<Rightarrow>
          if c = CHR ''['' then
            (case dropWhile jsonWs cs of
               [] \<Rightarrow> None
             | d # ds \<Rightarrow>
                 if d = CHR '']'' then Some (JArr [], ds)
                 else (case readItems n cs of
                         None \<Rightarrow> None
                       | Some (xs, r) \<Rightarrow> Some (JArr xs, r)))
          else if c = CHR ''{'' then
            (case dropWhile jsonWs cs of
               [] \<Rightarrow> None
             | d # ds \<Rightarrow>
                 if d = CHR ''}'' then Some (JObj [], ds)
                 else (case readMembers n cs of
                         None \<Rightarrow> None
                       | Some (kvs, r) \<Rightarrow> Some (JObj (rev kvs), r)))
          else if c = CHR 0x22 then
            (case readString cs of None \<Rightarrow> None | Some (str, r) \<Rightarrow> Some (JStr str, r))
          else if prefix ''null'' (c # cs) then Some (JNull, drop 4 (c # cs))
          else if prefix ''true'' (c # cs) then Some (JBool True, drop 4 (c # cs))
          else if prefix ''false'' (c # cs) then Some (JBool False, drop 5 (c # cs))
          else if isDigit c then
            Some (JNum (of_int (digitsVal (takeWhile isDigit (c # cs)))), dropWhile isDigit cs)
          else None)"
| "readItems 0 s = None"
| "readItems (Suc n) s =
     (case readValue n s of
        None \<Rightarrow> None
      | Some (v, r) \<Rightarrow>
          (case dropWhile jsonWs r of
             [] \<Rightarrow> None
           | c # cs \<Rightarrow>
               if c = CHR '']'' then Some ([v], cs)
               else if c = CHR '','' then
                 (case readItems n cs of None \<Rightarrow> None | Some (vs, r') \<Rightarrow> Some (v # vs, r'))
               else None))"
| "readMembers 0 s = None"
| "readMembers (Suc n) s =
     (case dropWhile jsonWs s of
        [] \<Rightarrow> None
      | q # s1 \<Rightarrow>
          if q \<noteq> CHR 0x22 then None
          else
            (case readString s1 of
               None \<Rightarrow> None
             | Some (k, s2) \<Rightarrow>
                 (case dropWhile jsonWs s2 of
                    [] \<Rightarrow> None
                  | col # s3 \<Rightarrow>
                      if col \<noteq> CHR '':'' then None
                      else
                        (case readValue n s3 of
                           None \<Rightarrow> None
                         | Some (v, r) \<Rightarrow>
                             (case dropWhile jsonWs r of
                                [] \<Rightarrow> None
                              | c # cs \<Rightarrow>
                                  if c = CHR ''}'' then Some ([(k, v)], cs)
                                  else if c = CHR '','' then
                                    (case readMembers n cs of
                                       None \<Rightarrow> None
                                     | Some (kvs, r') \<Rightarrow> Some ((k, v) # kvs, r'))
                                  else None)))))"

definition readJson :: "string \<Rightarrow> json option" where
  "readJson s =
     (case readValue (length s) s of
        None \<Rightarrow> None
      | Some (v, r) \<Rightarrow> if dropWhile jsonWs r = [] then Some v else None)"

definition samplePlatform :: platform where
  "samplePlatform =
     \<lparr>parseDate = isoDate, urlHost = httpHost, jsonParse = readJson, toLowerCase = asciiLower\<rparr>"

text \<open>The no-break space \<open>U+00A0\<close> and the byte order mark \<open>U+FEFF\<close>.\<close>

definition nbsp :: string where
  "nbsp = [CHR 0xC2, CHR 0xA0]"

definition bom :: string where
  "bom = [CHR 0xEF, CHR 0xBB, CHR 0xBF]"

text \<open>A candidate as the model returns it, and the options of a run whose one source is
  \<open>https://barby.co.il/events\<close>, with the window from 2026-11-05 to 2026-11-12.\<close>

definition candidate :: "string \<Rightarrow> string \<Rightarrow> string \<Rightarrow> string list \<Rightarrow> json" where
  "candidate name dt address gs =
     JObj [(''event_name'', JStr name), (''artists'', JArr [JStr ''Trio'']),
           (''genres'', JArr (map JStr gs)), (''date'', JStr dt), (''venue'', JStr ''Barby''),
           (''event_url'', JStr address)]"

definition sampleOpts :: "string list option \<Rightarrow> opts" where
  "sampleOpts sel =
     \<lparr>brief = \<lparr>artists = Some [], genres = sel, venues = Some [''barby''],
               eventWindow = Some ''Next 7 days''\<rparr>,
      allowedUrls = {''https://barby.co.il/events''},
      allowedHosts = {''barby.co.il''},
      start = Some 1793836800000,
      end' = Some 1794441600000\<rparr>"

definition jazzNight :: json where
  "jazzNight =
     candidate ''Jazz Night'' ''2026-11-08'' ''https://barby.co.il/events/jazz-night'' [''Jazz'']"

text \<open>The same event at an address of a host that is in no source, and at a text that is
  no absolute address.\<close>

definition elsewhere :: json where
  "elsewhere =
     candidate ''Jazz Night'' ''2026-11-08'' ''https://tickets.example/jazz-night'' [''Jazz'']"

definition noAddress :: json where
  "noAddress = candidate ''Jazz Night'' ''2026-11-08'' ''barby.co.il/jazz-night'' [''Jazz'']"

text \<open>The event \<^const>\<open>jazzNight\<close> as a model may write it: the date after a byte order
  mark, the address between a no-break space and a space.\<close>

definition paddedNight :: json where
  "paddedNight =
     candidate ''Jazz Night'' (bom @ ''2026-11-08'')
       (nbsp @ ''https://barby.co.il/events/jazz-night'' @ '' '') [''Jazz'']"

text \<open>Genre selections: every entry of the vocabulary in another order with two entries
  twice, and every entry, each after a no-break space and before a space, beside a label
  that is not in the vocabulary.\<close>

definition everyGenre :: "string list" where
  "everyGenre = ''Metal'' # ''Jazz'' # rev KNOWN_GENRES"

definition everyGenreAndMore :: "string list" where
  "everyGenreAndMore = ''Techno'' # map (\<lambda>g. nbsp @ g @ '' '') (rev KNOWN_GENRES)"

text \<open>An event whose one genre is in no selection, an event one of whose genres is a
  selected one in capitals between a no-break space and a space, and an event on a given
  date.\<close>

definition loudJazz :: json where
  "loudJazz =
     candidate ''Jazz Night'' ''2026-11-08'' ''https://barby.co.il/events/jazz-night''
       [''Klezmer'', nbsp @ ''JAZZ'' @ '' '']"

definition klezmerNight :: json where
  "klezmerNight =
     candidate ''Klezmer Night'' ''2026-11-08'' ''https://barby.co.il/events/klezmer'' [''Klezmer'']"

definition onDate :: "string \<Rightarrow> json" where
  "onDate d = candidate ''Jazz Night'' d ''https://barby.co.il/events/jazz-night'' [''Jazz'']"




text \<open>The text of a JSON array with the one event \<^const>\<open>jazzNight\<close>.\<close>

definition quoted :: "string \<Rightarrow> string" where
  "quoted s = [CHR 0x22] @ s @ [CHR 0x22]"

definition sampleText :: string where
  "sampleText =
     ''[{'' @ quoted ''event_url'' @ '': '' @ quoted ''https://barby.co.il/events/jazz-night'' @
     '', '' @ quoted ''venue'' @ '': '' @ quoted ''Barby'' @ '', '' @
     quoted ''date'' @ '': '' @ quoted ''2026-11-08'' @ '', '' @
     quoted ''genres'' @ '': ['' @ quoted ''Jazz'' @ ''], '' @
     quoted ''artists'' @ '': ['' @ quoted ''Trio'' @ ''], '' @
     quoted ''event_name'' @ '': '' @ quoted ''Jazz Night'' @ ''}]''"

text \<open>A text inside a Markdown code fence with a language tag.\<close>

definition fenced :: "string \<Rightarrow> string \<Rightarrow> string" where
  "fenced tag inner = ''```'' @ tag @ [CHR 0x0A] @ inner @ [CHR 0x0A] @ ''```''"

text \<open>Two worlds for a run on 2026-11-05: in one the search finds nothing, in the other it
  finds the page of one venue, on which the event \<^const>\<open>jazzNight\<close> is linked. The
  model answers with \<^const>\<open>sampleText\<close> in a fence.\<close>

definition barbyPage :: SourceDoc where
  "barbyPage =
     \<lparr>url = ''https://barby.co.il/events'', title = Some ''Barby'',
      markdown = ''Jazz Night, 8 November: https://barby.co.il/events/jazz-night''\<rparr>"

definition sampleReply :: aiReply where
  "sampleReply =
     \<lparr>ai_ok = True, ai_status = 200, ai_content = Some (fenced ''json'' sampleText),
      ai_finish_reason = Some ''stop''\<rparr>"

definition quietWorld :: world where
  "quietWorld =
     \<lparr>LOVABLE_API_KEY = Some ''key'', clock = 1793836800000, localYear = 2026,
      firecrawlSearch = (\<lambda>q. Some []), aiGateway = Some sampleReply\<rparr>"

definition barbyWorld :: world where
  "barbyWorld =
     \<lparr>LOVABLE_API_KEY = Some ''key'', clock = 1793836800000, localYear = 2026,
      firecrawlSearch =
        (\<lambda>q. if q = ''site:barby.co.il Tel Aviv events 2026'' then Some [barbyPage] else None),
      aiGateway = Some sampleReply\<rparr>"

definition sampleBrief :: Brief where
  "sampleBrief =
     \<lparr>artists = Some [], genres = Some [''Jazz''], venues = Some [''barby''],
      eventWindow = Some ''Next 7 days''\<rparr>"

definition sampleRequest :: Request where
  "sampleRequest = \<lparr>httpMethod = ''POST'', body = Some (Some sampleBrief)\<rparr>"



section \<open>Properties of the validator\<close>

text \<open>The event that \<open>out.push\<close> appends for an item that passes every check.\<close>

definition extracted :: "json \<Rightarrow> Event" where
  "extracted item =
     \<lparr>event_name = strField item ''event_name'',
      event_artists = strArrayField item ''artists'',
      event_genres = strArrayField item ''genres'',
      date = strField item ''date'',
      venue = strField item ''venue'',
      event_url = strField item ''event_url''\<rparr>"

lemma validateItem_Some_iff:
  "validateItem P o' item = Some e \<longleftrightarrow>
     truthy item \<and> typeofObject item \<and>
     strField item ''event_name'' \<noteq> [] \<and> strField item ''date'' \<noteq> [] \<and>
     strField item ''venue'' \<noteq> [] \<and> strField item ''event_url'' \<noteq> [] \<and>
     (\<exists>t. parseDate P (strField item ''date'') = Some t \<and>
          \<not> dateLess (Some t) (start o') \<and> \<not> dateLess (end' o') (Some t)) \<and>
     (\<exists>h. urlHost P (strField item ''event_url'') = Some h \<and>
          (strField item ''event_url'' \<in> allowedUrls o' \<or> (h \<noteq> [] \<and> h \<in> allowedHosts o'))) \<and>
     (applyGenreFilter P o' \<longrightarrow>
        (\<exists>g \<in> set (strArrayField item ''genres'').
            trim (toLowerCase P g) \<in> preferredGenres P o')) \<and>
     e = extracted item"
  by (auto simp: validateItem_def Let_def truthyStr_def extracted_def list_ex_iff
      split: option.splits)

lemma validateItem_None_iff:
  "validateItem P o' item = None \<longleftrightarrow> validateItem P o' item \<noteq> Some (extracted item)"
  using validateItem_Some_iff [of P o' item] by (cases "validateItem P o' item") auto

lemma collect_set:
  "e \<in> set (collect P o' items) \<longleftrightarrow> (\<exists>item \<in> set items. validateItem P o' item = Some e)"
  by (induction items) (auto split: option.splits)

lemma dedupe_subset: "set (dedupe seen es) \<subseteq> set es"
  by (induction es arbitrary: seen) auto

lemma validated_from_item:
  assumes "e \<in> set (validateAndFilterEvents P o' raw)"
  shows "\<exists>item. validateItem P o' item = Some e"
proof (cases raw)
  case (JArr items)
  with assms have "e \<in> set (take 10 (dedupe {} (collect P o' items)))"
    by (simp add: validateAndFilterEvents_def)
  then have "e \<in> set (collect P o' items)"
    using dedupe_subset [of "{}" "collect P o' items"] by (auto dest: in_set_takeD)
  then show ?thesis by (auto simp: collect_set)
qed (use assms in \<open>simp_all add: validateAndFilterEvents_def\<close>)

text \<open>The definitions that evaluating the validator on the sample inputs unfolds.\<close>

lemmas sample_defs =
  samplePlatform_def sampleOpts_def candidate_def validateItem_def strField_def strArrayField_def
  trim_def strip.simps spaceAt_def whiteSpaces_def truthyStr_def applyGenreFilter_def
  preferredGenres_def
  isoDate_def isDigit_def digitsVal_def httpHost_def TimeClip_def MakeDate_def MakeDay_def
  DayFromYear_def DaysInYear_def monthStart_def msPerDay_def extracted_def
  isAllGenresSelection_def asciiLower_def lowerChar_def char_of_def KNOWN_GENRES_def

lemma jazzNight_kept:
  "validateItem samplePlatform (sampleOpts None) jazzNight = Some (extracted jazzNight)"
  by (simp add: jazzNight_def sample_defs)

text \<open>
  \<^bold>\<open>C1\<close> (grounding). An item is kept only with its trimmed \<open>event_url\<close> in the set of
  allowed addresses or the host of that address in the set of allowed hosts, whatever its
  other fields are: a kept event carries the trimmed address of its item and satisfies one
  of the two; an item whose address is in neither set is dropped; an item whose address
  \<open>new URL\<close> rejects is dropped; and so every event the validator returns is grounded.
\<close>

theorem grounding_enforced:
  "(validateItem P o' item = Some e \<longrightarrow>
      event_url e = strField item ''event_url'' \<and>
      (event_url e \<in> allowedUrls o' \<or>
       (\<exists>h. urlHost P (event_url e) = Some h \<and> h \<in> allowedHosts o')))
   \<and> (strField item ''event_url'' \<notin> allowedUrls o' \<and>
        (\<forall>h. urlHost P (strField item ''event_url'') = Some h \<longrightarrow> h \<notin> allowedHosts o')
        \<longrightarrow> validateItem P o' item = None)
   \<and> (urlHost P (strField item ''event_url'') = None \<longrightarrow> validateItem P o' item = None)
   \<and> (\<forall>e' \<in> set (validateAndFilterEvents P o' raw).
         event_url e' \<in> allowedUrls o' \<or>
         (\<exists>h. urlHost P (event_url e') = Some h \<and> h \<in> allowedHosts o'))"
proof -
  have kept: "event_url x = strField it ''event_url'' \<and>
      (event_url x \<in> allowedUrls o' \<or>
       (\<exists>h. urlHost P (event_url x) = Some h \<and> h \<in> allowedHosts o'))"
    if "validateItem P o' it = Some x" for it x
    using that by (auto simp: validateItem_Some_iff extracted_def)
  have ungrounded: "validateItem P o' item = None"
    if "strField item ''event_url'' \<notin> allowedUrls o' \<and>
        (\<forall>h. urlHost P (strField item ''event_url'') = Some h \<longrightarrow> h \<notin> allowedHosts o')"
    using that by (auto simp: validateItem_None_iff validateItem_Some_iff)
  have unparsable: "validateItem P o' item = None"
    if "urlHost P (strField item ''event_url'') = None"
    using that by (auto simp: validateItem_None_iff validateItem_Some_iff)
  have all: "event_url e' \<in> allowedUrls o' \<or>
         (\<exists>h. urlHost P (event_url e') = Some h \<and> h \<in> allowedHosts o')"
    if mem: "e' \<in> set (validateAndFilterEvents P o' raw)" for e'
  proof -
    obtain it where "validateItem P o' it = Some e'"
      using mem validated_from_item by blast
    then show ?thesis using kept by blast
  qed
  show ?thesis using kept [of item e] ungrounded unparsable all by blast
qed


lemma paddedNight_kept:
  "validateItem samplePlatform (sampleOpts None) paddedNight = Some (extracted paddedNight)"
  "strField paddedNight ''event_url'' = ''https://barby.co.il/events/jazz-night''"
  by (simp_all add: paddedNight_def nbsp_def bom_def sample_defs)

theorem grounding_enforced_witness:
  "validateItem samplePlatform (sampleOpts None) jazzNight = Some (extracted jazzNight)
   \<and> event_url (extracted jazzNight) = ''https://barby.co.il/events/jazz-night''
   \<and> (event_url (extracted jazzNight) \<in> allowedUrls (sampleOpts None) \<or>
      (\<exists>h. urlHost samplePlatform (event_url (extracted jazzNight)) = Some h
           \<and> h \<in> allowedHosts (sampleOpts None)))
   \<and> validateItem samplePlatform (sampleOpts None) elsewhere = None
   \<and> validateItem samplePlatform (sampleOpts None) noAddress = None
   \<and> validateAndFilterEvents samplePlatform (sampleOpts None) (JArr [elsewhere, jazzNight])
       = [extracted jazzNight]
   \<and> (\<exists>h. urlHost samplePlatform ''https://barby.co.il/events/jazz-night'' = Some h
           \<and> h \<in> allowedHosts (sampleOpts None))
   \<and> validateItem samplePlatform (sampleOpts None) paddedNight = Some (extracted paddedNight)
   \<and> event_url (extracted paddedNight) = ''https://barby.co.il/events/jazz-night''"
proof -
  let ?P = samplePlatform and ?o = "sampleOpts None"
  have kept: "validateItem ?P ?o jazzNight = Some (extracted jazzNight)"
    by (rule jazzNight_kept)
  have address: "strField jazzNight ''event_url'' = ''https://barby.co.il/events/jazz-night''"
    by (simp add: jazzNight_def sample_defs)
  have other: "strField elsewhere ''event_url'' \<notin> allowedUrls ?o \<and>
      (\<forall>h. urlHost ?P (strField elsewhere ''event_url'') = Some h \<longrightarrow> h \<notin> allowedHosts ?o)"
    by (simp add: elsewhere_def sample_defs)
  have none: "urlHost ?P (strField noAddress ''event_url'') = None"
    by (simp add: noAddress_def sample_defs)
  have dropped: "validateItem ?P ?o elsewhere = None"
    using grounding_enforced [of ?P ?o elsewhere] other by blast
  have run: "validateAndFilterEvents ?P ?o (JArr [elsewhere, jazzNight]) = [extracted jazzNight]"
    by (simp add: validateAndFilterEvents_def kept dropped)
  have "event_url (extracted jazzNight) \<in> allowedUrls ?o \<or>
      (\<exists>h. urlHost ?P (event_url (extracted jazzNight)) = Some h \<and> h \<in> allowedHosts ?o)"
    using grounding_enforced [of ?P ?o jazzNight "extracted jazzNight"
        "JArr [elsewhere, jazzNight]"] run
    by simp
  moreover have "event_url (extracted jazzNight) = ''https://barby.co.il/events/jazz-night''"
    using grounding_enforced [of ?P ?o jazzNight "extracted jazzNight"] kept address by simp
  moreover have "validateItem ?P ?o noAddress = None"
    using grounding_enforced [of ?P ?o noAddress] none by blast
  moreover have "\<exists>h. urlHost ?P ''https://barby.co.il/events/jazz-night'' = Some h
      \<and> h \<in> allowedHosts ?o"
    by (simp add: sample_defs)
  moreover have "event_url (extracted paddedNight) = ''https://barby.co.il/events/jazz-night''"
    using grounding_enforced [of ?P ?o paddedNight "extracted paddedNight"] paddedNight_kept
    by simp
  ultimately show ?thesis using kept dropped run paddedNight_kept(1) by simp
qed

section \<open>Genres\<close>

lemma known_all: "list_all (\<lambda>g. trim g = g \<and> g \<noteq> []) KNOWN_GENRES"
  by code_simp

lemma known_trim: "g \<in> set KNOWN_GENRES \<Longrightarrow> trim g = g"
  using known_all by (simp add: list_all_iff)

lemma known_nonempty: "g \<in> set KNOWN_GENRES \<Longrightarrow> g \<noteq> []"
  using known_all by (auto simp: list_all_iff)

lemma known_exists: "''Jazz'' \<in> set KNOWN_GENRES"
  by (simp add: KNOWN_GENRES_def)

lemma isAllGenresSelection_iff:
  "isAllGenresSelection (Some gs) \<longleftrightarrow> set KNOWN_GENRES \<subseteq> trim ` set gs"
proof (cases "gs = []")
  case True
  then show ?thesis using known_exists by (auto simp add: isAllGenresSelection_def)
next
  case False
  have "(\<forall>g \<in> set KNOWN_GENRES. g \<in> trim ` set gs \<and> g \<noteq> []) \<longleftrightarrow>
      set KNOWN_GENRES \<subseteq> trim ` set gs"
    using known_nonempty by auto
  with False show ?thesis
    by (auto simp: isAllGenresSelection_def Let_def list_all_iff truthyStr_def)
qed

lemma isAllGenresSelection_empty:
  "\<not> isAllGenresSelection (Some [])" "\<not> isAllGenresSelection None"
  by (simp_all add: isAllGenresSelection_def)

text \<open>
  \<^bold>\<open>C10\<close> (the all-genres check on supersets). \<open>isAllGenresSelection\<close> holds of every
  list whose trimmed entries contain the twelve entries of the vocabulary, whatever else
  the list contains, and of no other list; under such a selection the validator applies
  no genre filter and the prompt prints \<open>any genre\<close> and the line that no filtering is
  required. It is false of the empty list and of a missing list.
\<close>

theorem all_genres_superset:
  "(set KNOWN_GENRES \<subseteq> trim ` set gs \<longrightarrow>
      isAllGenresSelection (Some gs)
      \<and> (genres (brief o') = Some gs \<longrightarrow> \<not> applyGenreFilter P o')
      \<and> (genres b = Some gs \<longrightarrow>
           promptPreferredGenres b = ''any genre''
           \<and> promptGenreRule b = ''- genre: no filtering required.'' @ [CHR 0x0A]))
   \<and> (isAllGenresSelection (Some gs) \<longrightarrow> set KNOWN_GENRES \<subseteq> trim ` set gs)
   \<and> \<not> isAllGenresSelection (Some [])
   \<and> \<not> isAllGenresSelection None"
proof -
  have "isAllGenresSelection (Some gs)
      \<and> (genres (brief o') = Some gs \<longrightarrow> \<not> applyGenreFilter P o')
      \<and> (genres b = Some gs \<longrightarrow>
           promptPreferredGenres b = ''any genre''
           \<and> promptGenreRule b = ''- genre: no filtering required.'' @ [CHR 0x0A])"
    if sup: "set KNOWN_GENRES \<subseteq> trim ` set gs"
  proof -
    have all: "isAllGenresSelection (Some gs)" using sup by (simp add: isAllGenresSelection_iff)
    then show ?thesis
      by (auto simp: applyGenreFilter_def promptPreferredGenres_def promptGenreRule_def)
  qed
  then show ?thesis
    using isAllGenresSelection_empty by (simp add: isAllGenresSelection_iff)
qed

lemma everyGenreAndMore_facts:
  "set KNOWN_GENRES \<subseteq> trim ` set everyGenreAndMore"
  "set KNOWN_GENRES \<inter> set everyGenreAndMore = {}"
  "\<not> set KNOWN_GENRES \<subseteq> trim ` set (tl KNOWN_GENRES)"
  by code_simp+

theorem all_genres_superset_witness:
  "set KNOWN_GENRES \<subseteq> trim ` set everyGenreAndMore
   \<and> set KNOWN_GENRES \<inter> set everyGenreAndMore = {}
   \<and> isAllGenresSelection (Some everyGenreAndMore)
   \<and> \<not> applyGenreFilter samplePlatform (sampleOpts (Some everyGenreAndMore))
   \<and> promptPreferredGenres (brief (sampleOpts (Some everyGenreAndMore))) = ''any genre''
   \<and> promptGenreRule (brief (sampleOpts (Some everyGenreAndMore)))
       = ''- genre: no filtering required.'' @ [CHR 0x0A]
   \<and> ''Techno'' \<in> set everyGenreAndMore
   \<and> ''Techno'' \<notin> set KNOWN_GENRES
   \<and> \<not> isAllGenresSelection (Some (tl KNOWN_GENRES))"
proof -
  let ?o = "sampleOpts (Some everyGenreAndMore)"
  have sel: "genres (brief ?o) = Some everyGenreAndMore"
    by (simp add: sampleOpts_def)
  have techno: "''Techno'' \<in> set everyGenreAndMore" "''Techno'' \<notin> set KNOWN_GENRES"
    by (simp_all add: everyGenreAndMore_def KNOWN_GENRES_def)
  note more = all_genres_superset [of everyGenreAndMore ?o samplePlatform "brief ?o"]
  note less = all_genres_superset [of "tl KNOWN_GENRES"]
  have a: "isAllGenresSelection (Some everyGenreAndMore)
      \<and> (genres (brief ?o) = Some everyGenreAndMore \<longrightarrow> \<not> applyGenreFilter samplePlatform ?o)
      \<and> (genres (brief ?o) = Some everyGenreAndMore \<longrightarrow>
           promptPreferredGenres (brief ?o) = ''any genre''
           \<and> promptGenreRule (brief ?o) = ''- genre: no filtering required.'' @ [CHR 0x0A])"
    by (rule mp [OF conjunct1 [OF more]]) (rule everyGenreAndMore_facts(1))
  have b: "\<not> isAllGenresSelection (Some (tl KNOWN_GENRES))"
    using conjunct1 [OF conjunct2 [OF less]] everyGenreAndMore_facts(3) by blast
  show ?thesis using a b sel techno everyGenreAndMore_facts(1,2) by simp
qed

lemma lowered_known:
  assumes "lowersVocabulary P" and "g \<in> set KNOWN_GENRES"
  shows "trim (toLowerCase P g) \<noteq> []"
proof -
  have "list_all (\<lambda>x. trim x \<noteq> [])
      [''indie rock'', ''jazz'', ''electronic'', ''hip hop'', ''classical'', ''world music'',
       ''pop'', ''r&b'', ''alternative'', ''folk'', ''punk'', ''metal'']"
    by code_simp
  then have "list_all (\<lambda>x. trim x \<noteq> []) (map (toLowerCase P) KNOWN_GENRES)"
    using assms(1) by (simp only: lowersVocabulary_def)
  then show ?thesis using assms(2) by (simp add: list_all_iff)
qed

lemma preferred_of_known:
  assumes "genres (brief o') = Some gs" and "set gs \<subseteq> set KNOWN_GENRES"
    and "lowersVocabulary P"
  shows "preferredGenres P o' = (\<lambda>p. trim (toLowerCase P p)) ` set gs"
proof -
  have "trim (toLowerCase P p) \<noteq> []" if "p \<in> set gs" for p
    using that assms(2) lowered_known [OF assms(3)] by blast
  then show ?thesis using assms(1) by (force simp: preferredGenres_def truthyStr_def)
qed

text \<open>
  \<^bold>\<open>C2\<close> (all genres selected). When the selection, as a set, is the vocabulary, the
  validator applies no genre filter: an item that has its four fields, a date in the
  window and a grounded address is kept whatever its genres are. When the selection is a
  non-empty proper subset of the vocabulary the filter applies: an item none of whose
  genres equals a selected genre, after lower-casing and trimming both, is dropped, and
  an item that has such a genre, its four fields, a date in the window and a grounded
  address is kept. Here the runtime lower-cases the vocabulary as every runtime does.
\<close>

theorem all_genres_selected_no_filter:
  "(genres (brief o') = Some gs \<and> set gs = set KNOWN_GENRES \<and>
      truthy item \<and> typeofObject item \<and>
      strField item ''event_name'' \<noteq> [] \<and> strField item ''date'' \<noteq> [] \<and>
      strField item ''venue'' \<noteq> [] \<and> strField item ''event_url'' \<noteq> [] \<and>
      parseDate P (strField item ''date'') = Some t \<and>
      \<not> dateLess (Some t) (start o') \<and> \<not> dateLess (end' o') (Some t) \<and>
      urlHost P (strField item ''event_url'') = Some h \<and>
      (strField item ''event_url'' \<in> allowedUrls o' \<or> (h \<noteq> [] \<and> h \<in> allowedHosts o'))
      \<longrightarrow> \<not> applyGenreFilter P o' \<and> validateItem P o' item = Some (extracted item))
   \<and> (genres (brief o') = Some gs \<and> gs \<noteq> [] \<and> set gs \<subset> set KNOWN_GENRES \<and>
      lowersVocabulary P
      \<longrightarrow> applyGenreFilter P o')
   \<and> (genres (brief o') = Some gs \<and> gs \<noteq> [] \<and> set gs \<subset> set KNOWN_GENRES \<and>
      lowersVocabulary P \<and>
      \<not> (\<exists>g \<in> set (strArrayField item ''genres''). \<exists>p \<in> set gs.
            trim (toLowerCase P g) = trim (toLowerCase P p))
      \<longrightarrow> validateItem P o' item = None)
   \<and> (genres (brief o') = Some gs \<and> gs \<noteq> [] \<and> set gs \<subset> set KNOWN_GENRES \<and>
      lowersVocabulary P \<and>
      (\<exists>g \<in> set (strArrayField item ''genres''). \<exists>p \<in> set gs.
            trim (toLowerCase P g) = trim (toLowerCase P p)) \<and>
      truthy item \<and> typeofObject item \<and>
      strField item ''event_name'' \<noteq> [] \<and> strField item ''date'' \<noteq> [] \<and>
      strField item ''venue'' \<noteq> [] \<and> strField item ''event_url'' \<noteq> [] \<and>
      parseDate P (strField item ''date'') = Some t \<and>
      \<not> dateLess (Some t) (start o') \<and> \<not> dateLess (end' o') (Some t) \<and>
      urlHost P (strField item ''event_url'') = Some h \<and>
      (strField item ''event_url'' \<in> allowedUrls o' \<or> (h \<noteq> [] \<and> h \<in> allowedHosts o'))
      \<longrightarrow> validateItem P o' item = Some (extracted item))"
proof -
  let ?match = "\<exists>g \<in> set (strArrayField item ''genres''). \<exists>p \<in> set gs.
      trim (toLowerCase P g) = trim (toLowerCase P p)"
  let ?checks = "truthy item \<and> typeofObject item \<and>
      strField item ''event_name'' \<noteq> [] \<and> strField item ''date'' \<noteq> [] \<and>
      strField item ''venue'' \<noteq> [] \<and> strField item ''event_url'' \<noteq> [] \<and>
      parseDate P (strField item ''date'') = Some t \<and>
      \<not> dateLess (Some t) (start o') \<and> \<not> dateLess (end' o') (Some t) \<and>
      urlHost P (strField item ''event_url'') = Some h \<and>
      (strField item ''event_url'' \<in> allowedUrls o' \<or> (h \<noteq> [] \<and> h \<in> allowedHosts o'))"
  have full: "\<not> applyGenreFilter P o'"
    if "genres (brief o') = Some gs" "set gs = set KNOWN_GENRES"
  proof -
    have "set KNOWN_GENRES \<subseteq> trim ` set gs"
      using that(2) known_trim by force
    then show ?thesis using that(1) by (simp add: applyGenreFilter_def isAllGenresSelection_iff)
  qed
  have kept_full: "validateItem P o' item = Some (extracted item)"
    if "genres (brief o') = Some gs" "set gs = set KNOWN_GENRES" ?checks
    using that(3) full [OF that(1,2)] by (auto simp: validateItem_Some_iff)
  have part: "applyGenreFilter P o'"
    if sel: "genres (brief o') = Some gs" and ne: "gs \<noteq> []"
      and sub: "set gs \<subset> set KNOWN_GENRES" and low: "lowersVocabulary P"
  proof -
    from sub have subs: "set gs \<subseteq> set KNOWN_GENRES" by auto
    have img: "trim ` set gs = set gs" using subs known_trim by force
    from sub have "\<not> set KNOWN_GENRES \<subseteq> trim ` set gs" unfolding img by auto
    moreover have "preferredGenres P o' \<noteq> {}"
      using preferred_of_known [OF sel subs low] ne by simp
    ultimately show ?thesis using sel by (simp add: applyGenreFilter_def isAllGenresSelection_iff)
  qed
  have key: "(\<exists>g \<in> set (strArrayField item ''genres'').
        trim (toLowerCase P g) \<in> preferredGenres P o') \<longleftrightarrow> ?match"
    if sel: "genres (brief o') = Some gs" and sub: "set gs \<subset> set KNOWN_GENRES"
      and low: "lowersVocabulary P"
  proof -
    from sub have subs: "set gs \<subseteq> set KNOWN_GENRES" by auto
    show ?thesis unfolding preferred_of_known [OF sel subs low] by auto
  qed
  have dropped: "validateItem P o' item = None"
    if sel: "genres (brief o') = Some gs" and ne: "gs \<noteq> []"
      and sub: "set gs \<subset> set KNOWN_GENRES" and low: "lowersVocabulary P" and no: "\<not> ?match"
    using part [OF sel ne sub low] no key [OF sel sub low]
    by (auto simp: validateItem_None_iff validateItem_Some_iff)
  have kept_part: "validateItem P o' item = Some (extracted item)"
    if sel: "genres (brief o') = Some gs" and sub: "set gs \<subset> set KNOWN_GENRES"
      and low: "lowersVocabulary P" and yes: ?match and checks: ?checks
    using checks yes key [OF sel sub low] by (auto simp: validateItem_Some_iff)
  show ?thesis using full kept_full part dropped kept_part by blast
qed

lemma everyGenre_set: "set everyGenre = set KNOWN_GENRES"
  by code_simp

lemma two_genres_subset: "set [''Jazz'', ''Folk''] \<subset> set KNOWN_GENRES"
  by code_simp

lemma sample_lowers: "lowersVocabulary samplePlatform"
  by code_simp

lemma klezmerNight_checks:
  "truthy klezmerNight \<and> typeofObject klezmerNight \<and>
   strField klezmerNight ''event_name'' \<noteq> [] \<and> strField klezmerNight ''date'' \<noteq> [] \<and>
   strField klezmerNight ''venue'' \<noteq> [] \<and> strField klezmerNight ''event_url'' \<noteq> [] \<and>
   parseDate samplePlatform (strField klezmerNight ''date'') = Some 1794096000000 \<and>
   \<not> dateLess (Some 1794096000000) (start (sampleOpts sel)) \<and>
   \<not> dateLess (end' (sampleOpts sel)) (Some 1794096000000) \<and>
   urlHost samplePlatform (strField klezmerNight ''event_url'') = Some ''barby.co.il'' \<and>
   ''barby.co.il'' \<noteq> [] \<and> ''barby.co.il'' \<in> allowedHosts (sampleOpts sel)"
  by (simp add: klezmerNight_def sample_defs)

lemma loudJazz_checks:
  "truthy loudJazz \<and> typeofObject loudJazz \<and>
   strField loudJazz ''event_name'' \<noteq> [] \<and> strField loudJazz ''date'' \<noteq> [] \<and>
   strField loudJazz ''venue'' \<noteq> [] \<and> strField loudJazz ''event_url'' \<noteq> [] \<and>
   parseDate samplePlatform (strField loudJazz ''date'') = Some 1794096000000 \<and>
   \<not> dateLess (Some 1794096000000) (start (sampleOpts sel)) \<and>
   \<not> dateLess (end' (sampleOpts sel)) (Some 1794096000000) \<and>
   urlHost samplePlatform (strField loudJazz ''event_url'') = Some ''barby.co.il'' \<and>
   ''barby.co.il'' \<noteq> [] \<and> ''barby.co.il'' \<in> allowedHosts (sampleOpts sel)"
  by (simp add: loudJazz_def sample_defs)

lemma sample_genres:
  "strArrayField klezmerNight ''genres'' = [''Klezmer'']"
  "strArrayField loudJazz ''genres'' = [''Klezmer'', ''JAZZ'']"
  "trim (toLowerCase samplePlatform ''Klezmer'') = ''klezmer''"
  "trim (toLowerCase samplePlatform ''JAZZ'') = ''jazz''"
  "trim (toLowerCase samplePlatform ''Jazz'') = ''jazz''"
  "trim (toLowerCase samplePlatform ''Folk'') = ''folk''"
  "event_genres (extracted klezmerNight) = [''Klezmer'']"
  "event_genres (extracted loudJazz) = [''Klezmer'', ''JAZZ'']"
  by code_simp+

theorem all_genres_selected_no_filter_witness:
  "set everyGenre = set KNOWN_GENRES
   \<and> \<not> applyGenreFilter samplePlatform (sampleOpts (Some everyGenre))
   \<and> validateItem samplePlatform (sampleOpts (Some everyGenre)) klezmerNight
       = Some (extracted klezmerNight)
   \<and> event_genres (extracted klezmerNight) = [''Klezmer'']
   \<and> set [''Jazz'', ''Folk''] \<subset> set KNOWN_GENRES
   \<and> lowersVocabulary samplePlatform
   \<and> applyGenreFilter samplePlatform (sampleOpts (Some [''Jazz'', ''Folk'']))
   \<and> validateItem samplePlatform (sampleOpts (Some [''Jazz'', ''Folk''])) klezmerNight = None
   \<and> validateItem samplePlatform (sampleOpts (Some [''Jazz'', ''Folk''])) loudJazz
       = Some (extracted loudJazz)
   \<and> event_genres (extracted loudJazz) = [''Klezmer'', ''JAZZ'']"
proof -
  let ?P = samplePlatform and ?all = "sampleOpts (Some everyGenre)"
    and ?two = "sampleOpts (Some [''Jazz'', ''Folk''])"
  have sel: "genres (brief ?two) = Some [''Jazz'', ''Folk'']"
    and sel': "genres (brief ?all) = Some everyGenre"
    by (simp_all add: sampleOpts_def)
  have no: "\<not> (\<exists>g \<in> set (strArrayField klezmerNight ''genres''). \<exists>p \<in> set [''Jazz'', ''Folk''].
      trim (toLowerCase ?P g) = trim (toLowerCase ?P p))"
    by (simp add: sample_genres)
  have yes: "\<exists>g \<in> set (strArrayField loudJazz ''genres''). \<exists>p \<in> set [''Jazz'', ''Folk''].
      trim (toLowerCase ?P g) = trim (toLowerCase ?P p)"
    by (simp add: sample_genres)
  note full = all_genres_selected_no_filter [of ?all everyGenre klezmerNight ?P 1794096000000
      "''barby.co.il''"]
  note part = all_genres_selected_no_filter [of ?two "[''Jazz'', ''Folk'']" klezmerNight ?P]
  note loud = all_genres_selected_no_filter [of ?two "[''Jazz'', ''Folk'']" loudJazz ?P
      1794096000000 "''barby.co.il''"]
  have a: "\<not> applyGenreFilter ?P ?all
      \<and> validateItem ?P ?all klezmerNight = Some (extracted klezmerNight)"
    using conjunct1 [OF full] sel' everyGenre_set klezmerNight_checks [of "Some everyGenre"]
    by simp
  have b: "applyGenreFilter ?P ?two"
    using conjunct1 [OF conjunct2 [OF part]] sel two_genres_subset sample_lowers by simp
  have c: "validateItem ?P ?two klezmerNight = None"
    using conjunct1 [OF conjunct2 [OF conjunct2 [OF part]]] sel two_genres_subset sample_lowers no
    by simp
  have d: "validateItem ?P ?two loudJazz = Some (extracted loudJazz)"
    using conjunct2 [OF conjunct2 [OF conjunct2 [OF loud]]] sel two_genres_subset sample_lowers
      yes loudJazz_checks [of "Some [''Jazz'', ''Folk'']"]
    by simp
  show ?thesis
    using a b c d everyGenre_set two_genres_subset sample_lowers sample_genres(7,8) by simp
qed

section \<open>The date window\<close>

text \<open>
  \<^bold>\<open>C3\<close> (date window). The validator parses the trimmed \<open>date\<close> with \<open>new Date\<close>. An
  item whose date does not parse is dropped; so is an item whose date is before the start
  of the window or after its end. An item whose date lies in the window, the two bounds
  included, is kept when it passes the other checks.
\<close>

theorem date_window_enforced:
  "(parseDate P (strField item ''date'') = None \<longrightarrow> validateItem P o' item = None)
   \<and> (parseDate P (strField item ''date'') = Some t \<and> start o' = Some s \<and> t < s
        \<longrightarrow> validateItem P o' item = None)
   \<and> (parseDate P (strField item ''date'') = Some t \<and> end' o' = Some e \<and> e < t
        \<longrightarrow> validateItem P o' item = None)
   \<and> (parseDate P (strField item ''date'') = Some t \<and> start o' = Some s \<and> end' o' = Some e \<and>
        s \<le> t \<and> t \<le> e \<and>
        truthy item \<and> typeofObject item \<and>
        strField item ''event_name'' \<noteq> [] \<and> strField item ''date'' \<noteq> [] \<and>
        strField item ''venue'' \<noteq> [] \<and> strField item ''event_url'' \<noteq> [] \<and>
        urlHost P (strField item ''event_url'') = Some h \<and>
        (strField item ''event_url'' \<in> allowedUrls o' \<or> (h \<noteq> [] \<and> h \<in> allowedHosts o')) \<and>
        (applyGenreFilter P o' \<longrightarrow>
           (\<exists>g \<in> set (strArrayField item ''genres'').
               trim (toLowerCase P g) \<in> preferredGenres P o'))
        \<longrightarrow> validateItem P o' item = Some (extracted item))"
  by (auto simp: validateItem_None_iff validateItem_Some_iff)

lemma onDate_rest:
  "truthy (onDate d) \<and> typeofObject (onDate d) \<and>
   strField (onDate d) ''event_name'' \<noteq> [] \<and>
   strField (onDate d) ''venue'' \<noteq> [] \<and> strField (onDate d) ''event_url'' \<noteq> [] \<and>
   urlHost samplePlatform (strField (onDate d) ''event_url'') = Some ''barby.co.il'' \<and>
   ''barby.co.il'' \<noteq> [] \<and> ''barby.co.il'' \<in> allowedHosts (sampleOpts None) \<and>
   \<not> applyGenreFilter samplePlatform (sampleOpts None)"
  by (simp add: onDate_def sample_defs)

theorem date_window_enforced_witness:
  "validateItem samplePlatform (sampleOpts None) (onDate ''next Friday'') = None
   \<and> validateItem samplePlatform (sampleOpts None) (onDate ''2026-11-04'') = None
   \<and> validateItem samplePlatform (sampleOpts None) (onDate ''2026-11-13'') = None
   \<and> parseDate samplePlatform (strField (onDate ''2026-11-05'') ''date'') = start (sampleOpts None)
   \<and> validateItem samplePlatform (sampleOpts None) (onDate ''2026-11-05'')
       = Some (extracted (onDate ''2026-11-05''))
   \<and> parseDate samplePlatform (strField (onDate ''2026-11-12'') ''date'') = end' (sampleOpts None)
   \<and> validateItem samplePlatform (sampleOpts None) (onDate ''2026-11-12'')
       = Some (extracted (onDate ''2026-11-12''))
   \<and> validateItem samplePlatform (sampleOpts None) (onDate (nbsp @ ''2026-11-12'' @ nbsp))
       = Some (extracted (onDate (nbsp @ ''2026-11-12'' @ nbsp)))
   \<and> date (extracted (onDate (nbsp @ ''2026-11-12'' @ nbsp))) = ''2026-11-12''"
proof -
  let ?P = samplePlatform and ?o = "sampleOpts None"
  have bounds: "start ?o = Some 1793836800000" "end' ?o = Some 1794441600000"
    by (simp_all add: sampleOpts_def)
  have unparsable: "parseDate ?P (strField (onDate ''next Friday'') ''date'') = None"
    by code_simp
  have early: "parseDate ?P (strField (onDate ''2026-11-04'') ''date'') = Some 1793750400000"
    by code_simp
  have late: "parseDate ?P (strField (onDate ''2026-11-13'') ''date'') = Some 1794528000000"
    by code_simp
  have first: "parseDate ?P (strField (onDate ''2026-11-05'') ''date'') = Some 1793836800000"
    by code_simp
  have last: "parseDate ?P (strField (onDate ''2026-11-12'') ''date'') = Some 1794441600000"
    by code_simp
  have padded: "strField (onDate (nbsp @ ''2026-11-12'' @ nbsp)) ''date'' = ''2026-11-12''"
    "date (extracted (onDate (nbsp @ ''2026-11-12'' @ nbsp))) = ''2026-11-12''"
    by code_simp+
  have last': "parseDate ?P (strField (onDate (nbsp @ ''2026-11-12'' @ nbsp)) ''date'')
      = Some 1794441600000"
    by code_simp
  have d1: "strField (onDate ''2026-11-05'') ''date'' \<noteq> []"
    and d2: "strField (onDate ''2026-11-12'') ''date'' \<noteq> []"
    and d3: "strField (onDate (nbsp @ ''2026-11-12'' @ nbsp)) ''date'' \<noteq> []"
    by code_simp+
  note t0 = date_window_enforced [of ?P "onDate ''next Friday''" ?o]
  note t1 = date_window_enforced [of ?P "onDate ''2026-11-04''" ?o 1793750400000 1793836800000]
  note t2 = date_window_enforced [of ?P "onDate ''2026-11-13''" ?o 1794528000000 _ 1794441600000]
  note t3 = date_window_enforced [of ?P "onDate ''2026-11-05''" ?o 1793836800000 1793836800000
      1794441600000 "''barby.co.il''"]
  note t4 = date_window_enforced [of ?P "onDate ''2026-11-12''" ?o 1794441600000 1793836800000
      1794441600000 "''barby.co.il''"]
  have a: "validateItem ?P ?o (onDate ''next Friday'') = None"
    using conjunct1 [OF t0] unparsable by simp
  have b: "validateItem ?P ?o (onDate ''2026-11-04'') = None"
    using conjunct1 [OF conjunct2 [OF t1]] early bounds by simp
  have c: "validateItem ?P ?o (onDate ''2026-11-13'') = None"
    using conjunct1 [OF conjunct2 [OF conjunct2 [OF t2]]] late bounds by simp
  have d: "validateItem ?P ?o (onDate ''2026-11-05'') = Some (extracted (onDate ''2026-11-05''))"
    using conjunct2 [OF conjunct2 [OF conjunct2 [OF t3]]] first bounds
      onDate_rest [of "''2026-11-05''"] d1
    by simp
  have e: "validateItem ?P ?o (onDate ''2026-11-12'') = Some (extracted (onDate ''2026-11-12''))"
    using conjunct2 [OF conjunct2 [OF conjunct2 [OF t4]]] last bounds
      onDate_rest [of "''2026-11-12''"] d2
    by simp
  note t5 = date_window_enforced [of ?P "onDate (nbsp @ ''2026-11-12'' @ nbsp)" ?o 1794441600000
      1793836800000 1794441600000 "''barby.co.il''"]
  have f: "validateItem ?P ?o (onDate (nbsp @ ''2026-11-12'' @ nbsp))
      = Some (extracted (onDate (nbsp @ ''2026-11-12'' @ nbsp)))"
    using conjunct2 [OF conjunct2 [OF conjunct2 [OF t5]]] last' bounds
      onDate_rest [of "nbsp @ ''2026-11-12'' @ nbsp"] d3
    by simp
  show ?thesis using a b c d e f first last bounds padded(2) by simp
qed

section \<open>Deduplication and the cap\<close>


















section \<open>The model's output\<close>




















section \<open>A run without sources\<close>

lemma gatherSources_searches:
  "set (snd (gatherSources W b)) \<subseteq> range FirecrawlSearch"
  by (auto simp: gatherSources_def Let_def)

text \<open>
  \<^bold>\<open>C7\<close> (no sources). When the request is not a preflight, carries a brief, the
  gateway key is configured and the gathering returns no document, the run answers 200
  with the empty list of events and a source count of 0, and the only calls it has made
  are the searches: the gateway is not called. With at least one document the gateway is
  called, once, after the searches.
\<close>

theorem zero_sources_short_circuit:
  "(httpMethod req \<noteq> ''OPTIONS'' \<and> body req = Some (Some b) \<and>
      LOVABLE_API_KEY W = Some k \<and> k \<noteq> [] \<and> fst (gatherSources W b) = []
      \<longrightarrow> fst (handler P W req) = \<lparr>status = 200, payload = EventsBody [] 0 None\<rparr>
          \<and> snd (handler P W req) = snd (gatherSources W b)
          \<and> AiGatewayCall \<notin> set (snd (handler P W req)))
   \<and> (httpMethod req \<noteq> ''OPTIONS'' \<and> body req = Some (Some b) \<and>
      LOVABLE_API_KEY W = Some k \<and> k \<noteq> [] \<and> fst (gatherSources W b) \<noteq> []
      \<longrightarrow> snd (handler P W req) = snd (gatherSources W b) @ [AiGatewayCall])"
proof -
  have no: "AiGatewayCall \<notin> set (snd (gatherSources W b))"
    using gatherSources_searches [of W b] by auto
  show ?thesis
    using no
    by (auto simp: handler_def Let_def truthyStr_def split: option.splits)
qed


lemma sample_run_facts:
  "httpMethod sampleRequest \<noteq> ''OPTIONS''"
  "body sampleRequest = Some (Some sampleBrief)"
  "LOVABLE_API_KEY quietWorld = Some ''key''"
  "LOVABLE_API_KEY barbyWorld = Some ''key''"
  "''key'' \<noteq> []"
  "fst (gatherSources quietWorld sampleBrief) = []"
  "snd (gatherSources quietWorld sampleBrief)
     = [FirecrawlSearch ''site:barby.co.il Tel Aviv events 2026'']"
  "fst (gatherSources barbyWorld sampleBrief) = [barbyPage]"
  "snd (gatherSources barbyWorld sampleBrief)
     = [FirecrawlSearch ''site:barby.co.il Tel Aviv events 2026'']"
  "fst (handler samplePlatform barbyWorld sampleRequest)
     = \<lparr>status = 200, payload = EventsBody [extracted jazzNight] 1 (Some ''stop'')\<rparr>"
  by code_simp+

theorem zero_sources_short_circuit_witness:
  "fst (gatherSources quietWorld sampleBrief) = []
   \<and> fst (handler samplePlatform quietWorld sampleRequest)
       = \<lparr>status = 200, payload = EventsBody [] 0 None\<rparr>
   \<and> snd (handler samplePlatform quietWorld sampleRequest)
       = [FirecrawlSearch ''site:barby.co.il Tel Aviv events 2026'']
   \<and> AiGatewayCall \<notin> set (snd (handler samplePlatform quietWorld sampleRequest))
   \<and> fst (handler samplePlatform barbyWorld sampleRequest)
       = \<lparr>status = 200, payload = EventsBody [extracted jazzNight] 1 (Some ''stop'')\<rparr>
   \<and> snd (handler samplePlatform barbyWorld sampleRequest)
       = [FirecrawlSearch ''site:barby.co.il Tel Aviv events 2026'', AiGatewayCall]"
proof -
  note quiet = zero_sources_short_circuit [of sampleRequest sampleBrief quietWorld "''key''"
      samplePlatform, THEN conjunct1]
  note barby = zero_sources_short_circuit [of sampleRequest sampleBrief barbyWorld "''key''"
      samplePlatform, THEN conjunct2]
  have a: "fst (handler samplePlatform quietWorld sampleRequest)
        = \<lparr>status = 200, payload = EventsBody [] 0 None\<rparr>
      \<and> snd (handler samplePlatform quietWorld sampleRequest)
        = snd (gatherSources quietWorld sampleBrief)
      \<and> AiGatewayCall \<notin> set (snd (handler samplePlatform quietWorld sampleRequest))"
    by (rule mp [OF quiet]) (simp add: sample_run_facts(1,2,3,5,6))
  have b: "snd (handler samplePlatform barbyWorld sampleRequest)
      = snd (gatherSources barbyWorld sampleBrief) @ [AiGatewayCall]"
    by (rule mp [OF barby]) (simp add: sample_run_facts(1,2,4,5,8))
  show ?thesis using a b by (simp add: sample_run_facts(6,7,9,10))
qed

section \<open>Search queries\<close>















section \<open>The digest's two formats\<close>







section \<open>The calendar\<close>

text \<open>The year and the month of a day are the only ones whose first days enclose it; a date
  set beyond the end of its month carries into the following days.\<close>

lemma msPerDay_pos: "0 < msPerDay"
  by (simp add: msPerDay_def)

lemma DayFromYear_1970: "DayFromYear 1970 = 0"
  by (simp add: DayFromYear_def)

lemma DaysInYear_bounds: "365 \<le> DaysInYear y" "DaysInYear y \<le> 366"
  by (simp_all add: DaysInYear_def)

lemma DayFromYear_upper: "DayFromYear (1970 + int k) \<le> 366 * int k"
proof (induction k)
  case 0
  then show ?case by (simp add: DayFromYear_1970)
next
  case (Suc k)
  have "DayFromYear (1970 + int (Suc k)) = DayFromYear (1970 + int k) + DaysInYear (1970 + int k)"
    using DayFromYear_step [of "1970 + int k"] by (simp add: algebra_simps)
  with Suc DaysInYear_bounds(2) [of "1970 + int k"] show ?case by simp
qed

lemma DayFromYear_mono_nat: "DayFromYear y \<le> DayFromYear (y + int n)"
proof (induction n)
  case 0
  then show ?case by simp
next
  case (Suc n)
  have "DayFromYear (y + int n) < DayFromYear (y + int n + 1)" by (rule DayFromYear_less)
  with Suc show ?case by (simp add: algebra_simps)
qed

lemma DayFromYear_mono: "y \<le> y' \<Longrightarrow> DayFromYear y \<le> DayFromYear y'"
  using DayFromYear_mono_nat [of y "nat (y' - y)"] by simp

lemma yearUp_spec:
  "DayFromYear y \<le> d \<Longrightarrow> DayFromYear (yearUp y d) \<le> d \<and> d < DayFromYear (yearUp y d + 1)"
proof (induction y d rule: yearUp.induct)
  case (1 y d)
  show ?case
  proof (cases "DayFromYear (y + 1) \<le> d")
    case True
    then have "yearUp y d = yearUp (y + 1) d" by (subst yearUp.simps) simp
    with True "1.IH" show ?thesis by simp
  next
    case False
    then have "yearUp y d = y" by (subst yearUp.simps) simp
    with False "1.prems" show ?thesis by simp
  qed
qed

lemma yearOfDay_spec:
  assumes "0 \<le> d"
  shows "DayFromYear (yearOfDay d) \<le> d \<and> d < DayFromYear (yearOfDay d + 1)"
proof -
  let ?k = "d div 366"
  have k: "0 \<le> ?k" using assms by (simp add: pos_imp_zdiv_nonneg_iff)
  have "DayFromYear (1970 + int (nat ?k)) \<le> 366 * int (nat ?k)" by (rule DayFromYear_upper)
  then have "DayFromYear (1970 + ?k) \<le> 366 * ?k" using k by simp
  also have "\<dots> \<le> d"
  proof -
    have "366 * (d div 366) + d mod 366 = d" by simp
    moreover have "0 \<le> d mod 366" by simp
    ultimately show ?thesis by linarith
  qed
  finally have "DayFromYear (1970 + ?k) \<le> d" .
  then show ?thesis using assms by (simp add: yearOfDay_def yearUp_spec)
qed

lemma DayFromYear_lower: "DayFromYear (1970 - int k) \<le> - (365 * int k)"
proof (induction k)
  case 0
  then show ?case by (simp add: DayFromYear_1970)
next
  case (Suc k)
  have "DayFromYear (1970 - int k)
      = DayFromYear (1970 - int (Suc k)) + DaysInYear (1970 - int (Suc k))"
    using DayFromYear_step [of "1970 - int (Suc k)"] by (simp add: algebra_simps)
  with Suc DaysInYear_bounds(1) [of "1970 - int (Suc k)"] show ?case by simp
qed

lemma yearOfDay_spec_before_1970:
  assumes "d < 0"
  shows "DayFromYear (yearOfDay d) \<le> d \<and> d < DayFromYear (yearOfDay d + 1)"
proof -
  let ?k = "d div 365"
  have k: "?k < 0" using assms by (simp add: neg_imp_zdiv_neg_iff)
  have "DayFromYear (1970 - int (nat (- ?k))) \<le> - (365 * int (nat (- ?k)))"
    by (rule DayFromYear_lower)
  then have "DayFromYear (1970 + ?k) \<le> 365 * ?k" using k by simp
  also have "\<dots> \<le> d"
  proof -
    have "365 * (d div 365) + d mod 365 = d" by simp
    moreover have "0 \<le> d mod 365" by simp
    ultimately show ?thesis by linarith
  qed
  finally have "DayFromYear (1970 + ?k) \<le> d" .
  then show ?thesis using assms by (simp add: yearOfDay_def yearUp_spec)
qed

lemma yearOfDay_unique:
  assumes "0 \<le> d" and "DayFromYear y \<le> d" and "d < DayFromYear (y + 1)"
  shows "yearOfDay d = y"
proof (rule ccontr)
  assume ne: "yearOfDay d \<noteq> y"
  note s = yearOfDay_spec [OF assms(1)]
  show False
  proof (cases "yearOfDay d < y")
    case True
    then have "DayFromYear (yearOfDay d + 1) \<le> DayFromYear y" by (intro DayFromYear_mono) simp
    with s assms(2) show False by simp
  next
    case False
    with ne have "DayFromYear (y + 1) \<le> DayFromYear (yearOfDay d)"
      by (intro DayFromYear_mono) simp
    with s assms(3) show False by simp
  qed
qed

lemma yearOfDay_ge_1970: "0 \<le> d \<Longrightarrow> 1970 \<le> yearOfDay d"
proof (rule ccontr)
  assume d: "0 \<le> d" and "\<not> 1970 \<le> yearOfDay d"
  then have "DayFromYear (yearOfDay d + 1) \<le> DayFromYear 1970"
    by (intro DayFromYear_mono) simp
  with yearOfDay_spec [OF d] d show False by (simp add: DayFromYear_1970)
qed

lemma Day_nonneg: "0 \<le> t \<Longrightarrow> 0 \<le> Day t"
  by (simp add: Day_def msPerDay_def pos_imp_zdiv_nonneg_iff)

lemma time_split: "t = MakeDate (Day t) (TimeWithinDay t)"
  by (simp add: MakeDate_def Day_def TimeWithinDay_def)

lemma TimeWithinDay_bounds: "0 \<le> TimeWithinDay t" "TimeWithinDay t < msPerDay"
  using msPerDay_pos by (simp_all add: TimeWithinDay_def)

lemma Day_MakeDate:
  assumes "0 \<le> r" and "r < msPerDay"
  shows "Day (MakeDate d r) = d" and "TimeWithinDay (MakeDate d r) = r"
proof -
  have e: "MakeDate d r = msPerDay * d + r" by (simp add: MakeDate_def)
  show "Day (MakeDate d r) = d" unfolding Day_def by (rule int_div_pos_eq [OF e assms])
  show "TimeWithinDay (MakeDate d r) = r"
    unfolding TimeWithinDay_def by (rule int_mod_pos_eq [OF e assms])
qed

lemma year_of_time:
  assumes "0 \<le> t"
  shows "DayFromYear (YearFromTime t) \<le> Day t"
    and "Day t < DayFromYear (YearFromTime t) + DaysInYear (YearFromTime t)"
    and "1970 \<le> YearFromTime t"
proof -
  have d: "0 \<le> Day t" using assms by (rule Day_nonneg)
  note s = yearOfDay_spec [OF d]
  show "DayFromYear (YearFromTime t) \<le> Day t" using s by (simp add: YearFromTime_def)
  show "Day t < DayFromYear (YearFromTime t) + DaysInYear (YearFromTime t)"
    using s DayFromYear_step [of "yearOfDay (Day t)"] by (simp add: YearFromTime_def)
  show "1970 \<le> YearFromTime t" using yearOfDay_ge_1970 [OF d] by (simp add: YearFromTime_def)
qed

lemma InLeapYear_cases: "InLeapYear t = 0 \<or> InLeapYear t = 1"
  by (simp add: InLeapYear_def)

lemma DaysInYear_leap: "DaysInYear (YearFromTime t) = 365 + InLeapYear t"
  using DaysInYear_bounds [of "YearFromTime t"]
  by (auto simp: InLeapYear_def DaysInYear_def)

lemma DayWithinYear_bounds:
  assumes "0 \<le> t"
  shows "0 \<le> DayWithinYear t" and "DayWithinYear t < 365 + InLeapYear t"
  using year_of_time [OF assms] by (simp_all add: DayWithinYear_def DaysInYear_leap)

text \<open>The day within the year on which the month after \<open>m\<close> begins.\<close>

lemma month_bounds:
  assumes "0 \<le> t"
  shows "0 \<le> MonthFromTime t" and "MonthFromTime t \<le> 11"
    and "monthStart (MonthFromTime t) (InLeapYear t) \<le> DayWithinYear t"
    and "MonthFromTime t < 11 \<Longrightarrow>
         DayWithinYear t < monthStart (MonthFromTime t + 1) (InLeapYear t)"
proof -
  note b = DayWithinYear_bounds [OF assms] and l = InLeapYear_cases [of t]
  show "0 \<le> MonthFromTime t" by (simp add: MonthFromTime_def Let_def)
  show "MonthFromTime t \<le> 11" by (simp add: MonthFromTime_def Let_def)
  show "monthStart (MonthFromTime t) (InLeapYear t) \<le> DayWithinYear t"
    using b l by (auto simp: MonthFromTime_def monthStart_def Let_def)
  show "DayWithinYear t < monthStart (MonthFromTime t + 1) (InLeapYear t)"
    if "MonthFromTime t < 11"
    using that b l by (auto simp: MonthFromTime_def monthStart_def Let_def split: if_splits)
qed

lemma DateFromTime_eq:
  "DateFromTime t = DayWithinYear t - monthStart (MonthFromTime t) (InLeapYear t) + 1"
  by (simp add: DateFromTime_def monthStart_def Let_def)

lemma MakeDay_roundtrip:
  assumes "0 \<le> t"
  shows "MakeDay (YearFromTime t) (MonthFromTime t) (DateFromTime t + k) = Day t + k"
proof -
  note m = month_bounds(1,2) [OF assms]
  have dv: "MonthFromTime t div 12 = 0" and md: "MonthFromTime t mod 12 = MonthFromTime t"
    using m by simp_all
  have l: "(if DaysInYear (YearFromTime t) = 366 then 1 else 0) = InLeapYear t"
    by (simp add: InLeapYear_def)
  show ?thesis
    by (simp add: MakeDay_def Let_def dv md l DateFromTime_eq DayWithinYear_def)
qed

lemma month_of_day:
  assumes d: "0 \<le> d" and y1: "DayFromYear y \<le> d" and y2: "d < DayFromYear (y + 1)"
    and m: "0 \<le> m" "m \<le> 11"
    and lo: "monthStart m (if DaysInYear y = 366 then 1 else 0) \<le> d - DayFromYear y"
    and hi: "m < 11 \<Longrightarrow>
             d - DayFromYear y < monthStart (m + 1) (if DaysInYear y = 366 then 1 else 0)"
    and r: "0 \<le> r" "r < msPerDay"
  shows "YearFromTime (MakeDate d r) = y" and "MonthFromTime (MakeDate d r) = m"
proof -
  let ?t = "MakeDate d r"
  have day: "Day ?t = d" using r by (rule Day_MakeDate)
  show yr: "YearFromTime ?t = y"
    unfolding YearFromTime_def day using d y1 y2 by (rule yearOfDay_unique)
  define l :: int where "l = (if DaysInYear y = 366 then 1 else 0)"
  have leap: "InLeapYear ?t = l" by (simp add: InLeapYear_def yr l_def)
  have dwy: "DayWithinYear ?t = d - DayFromYear y" by (simp add: DayWithinYear_def day yr)
  have l: "l = 0 \<or> l = 1" by (simp add: l_def)
  have cases: "m = 0 \<or> m = 1 \<or> m = 2 \<or> m = 3 \<or> m = 4 \<or> m = 5 \<or> m = 6 \<or> m = 7 \<or> m = 8
      \<or> m = 9 \<or> m = 10 \<or> m = 11"
    using m by arith
  have lo': "monthStart m l \<le> d - DayFromYear y" using lo by (simp add: l_def)
  have hi': "m < 11 \<Longrightarrow> d - DayFromYear y < monthStart (m + 1) l" using hi by (simp add: l_def)
  show "MonthFromTime ?t = m"
    unfolding MonthFromTime_def leap dwy Let_def
    using cases lo' hi' l
    by (elim disjE) (simp_all add: monthStart_def)
qed

section \<open>The bounds of the time window\<close>

lemma TimeClip_in: "0 \<le> t \<Longrightarrow> t \<le> 8640000000000000 \<Longrightarrow> TimeClip t = Some t"
  by (simp add: TimeClip_def)

lemma MakeDate_shift: "MakeDate (Day t + k) (TimeWithinDay t) = t + k * msPerDay"
  using time_split [of t] by (simp add: MakeDate_def algebra_simps)

lemma Day_le: "0 \<le> t \<Longrightarrow> Day t * msPerDay \<le> t"
  using time_split [of t] TimeWithinDay_bounds(1) [of t] by (simp add: MakeDate_def)

lemma setUTCDate_shift:
  assumes "0 \<le> now" and "0 \<le> k" and "now + k * msPerDay \<le> 8640000000000000"
  shows "setUTCDate (Some now) (DateFromTime now + k) = Some (now + k * msPerDay)"
proof -
  have "0 \<le> k * msPerDay" using assms(2) msPerDay_pos by simp
  then have "0 \<le> now + k * msPerDay" using assms(1) by simp
  then show ?thesis
    using assms(3)
    by (simp add: setUTCDate_def MakeDay_roundtrip [OF assms(1)] MakeDate_shift TimeClip_in)
qed

lemma weekend_end:
  assumes now: "0 \<le> now" and room: "now + 32 * msPerDay \<le> 8640000000000000"
  shows "w_end (getTimeWindowRange now ''This weekend'')
           = Some (MakeDate (Day now + (7 - WeekDay now) mod 7) (msPerDay - 1))"
proof -
  define d where "d = (7 - WeekDay now) mod 7"
  have d: "0 \<le> d" "d < 7" by (simp_all add: d_def)
  have "d * msPerDay \<le> 32 * msPerDay" using d msPerDay_pos by simp
  then have le: "now + d * msPerDay \<le> 8640000000000000" using room by simp
  have e1: "setUTCDate (Some now) (DateFromTime now + d) = Some (now + d * msPerDay)"
    using now d(1) le by (rule setUTCDate_shift)
  have "Day (MakeDate (Day now + d) (TimeWithinDay now)) = Day now + d"
    by (rule Day_MakeDate(1)) (rule TimeWithinDay_bounds)+
  then have day: "Day (now + d * msPerDay) = Day now + d"
    by (simp only: MakeDate_shift)
  have mt: "MakeTime 23 59 59 999 = msPerDay - 1" by (simp add: MakeTime_def msPerDay_def)
  have lo: "0 \<le> MakeDate (Day now + d) (msPerDay - 1)"
    using Day_nonneg [OF now] d(1) msPerDay_pos by (simp add: MakeDate_def)
  have "MakeDate (Day now + d) (msPerDay - 1) \<le> now + d * msPerDay + msPerDay"
    using Day_le [OF now] by (simp add: MakeDate_def algebra_simps)
  also have "\<dots> \<le> now + 32 * msPerDay" using d(2) msPerDay_pos by (simp add: algebra_simps)
  finally have hi: "MakeDate (Day now + d) (msPerDay - 1) \<le> 8640000000000000"
    using room by simp
  have e2: "setUTCHours (Some (now + d * msPerDay)) 23 59 59 999
      = Some (MakeDate (Day now + d) (msPerDay - 1))"
    by (simp add: setUTCHours_def day mt TimeClip_in [OF lo hi])
  have "w_end (getTimeWindowRange now ''This weekend'') = Some (MakeDate (Day now + d) (msPerDay - 1))"
    unfolding getTimeWindowRange_def Let_def d_def [symmetric]
    by (simp add: truthyStr_def e1 e2)
  then show ?thesis by (simp only: d_def)
qed

lemma sunday: "((x::int) + (7 - x mod 7) mod 7) mod 7 = 0"
  by presburger

lemma next_days_end:
  assumes now: "0 \<le> now" and room: "now + 32 * msPerDay \<le> 8640000000000000"
  shows "w_end (getTimeWindowRange now ''Next 7 days'') = Some (now + 7 * msPerDay)"
    and "w_end (getTimeWindowRange now ''Next 2 weeks'') = Some (now + 14 * msPerDay)"
proof -
  have "now + 7 * msPerDay \<le> 8640000000000000" "now + 14 * msPerDay \<le> 8640000000000000"
    using room msPerDay_pos by simp_all
  then show "w_end (getTimeWindowRange now ''Next 7 days'') = Some (now + 7 * msPerDay)"
    and "w_end (getTimeWindowRange now ''Next 2 weeks'') = Some (now + 14 * msPerDay)"
    using setUTCDate_shift [OF now, of 7] setUTCDate_shift [OF now, of 14]
    by (simp_all add: getTimeWindowRange_def truthyStr_def Let_def)
qed

lemma monthStart_table:
  assumes "0 \<le> m" and "m \<le> 11" and "l = 0 \<or> l = 1"
  shows "monthStart m l \<le> 334 + l"
    and "m < 11 \<Longrightarrow> monthStart m l + 28 \<le> monthStart (m + 1) l"
    and "m < 11 \<Longrightarrow> monthStart (m + 1) l \<le> monthStart m l + 31"
    and "0 \<le> monthStart m l"
proof -
  have cases: "m = 0 \<or> m = 1 \<or> m = 2 \<or> m = 3 \<or> m = 4 \<or> m = 5 \<or> m = 6 \<or> m = 7 \<or> m = 8
      \<or> m = 9 \<or> m = 10 \<or> m = 11"
    using assms(1,2) by arith
  show "monthStart m l \<le> 334 + l"
    using cases assms(3) by (elim disjE) (simp_all add: monthStart_def)
  show "monthStart m l + 28 \<le> monthStart (m + 1) l" if "m < 11"
    using cases assms(3) that by (elim disjE) (simp_all add: monthStart_def)
  show "monthStart (m + 1) l \<le> monthStart m l + 31" if "m < 11"
    using cases assms(3) that by (elim disjE) (simp_all add: monthStart_def)
  show "0 \<le> monthStart m l"
    using cases assms(3) by (elim disjE) (simp_all add: monthStart_def)
qed

lemma month_end:
  assumes now: "0 \<le> now" and room: "now + 32 * msPerDay \<le> 8640000000000000"
    and w: "w \<noteq> ''This weekend''" "w \<noteq> ''Next 7 days''" "w \<noteq> ''Next 2 weeks''"
  shows "\<exists>e. w_end (getTimeWindowRange now w) = Some e \<and> now \<le> e \<and>
           YearFromTime e = YearFromTime now \<and> MonthFromTime e = MonthFromTime now \<and>
           TimeWithinDay e = msPerDay - 1 \<and> MonthFromTime (e + 1) \<noteq> MonthFromTime now"
proof -
  define y where "y = YearFromTime now"
  define m where "m = MonthFromTime now"
  define l where "l = InLeapYear now"
  define N where "N = (if m < 11 then DayFromYear y + monthStart (m + 1) l else DayFromYear (y + 1))"
  have y70: "1970 \<le> y" using year_of_time(3) [OF now] by (simp add: y_def)
  have m: "0 \<le> m" "m \<le> 11" using month_bounds(1,2) [OF now] by (simp_all add: m_def)
  have l: "l = 0 \<or> l = 1" using InLeapYear_cases [of now] by (simp add: l_def)
  have lif: "(if DaysInYear y = 366 then 1 else 0) = l" by (simp add: l_def y_def InLeapYear_def)
  have next_year: "DayFromYear (y + 1) = DayFromYear y + 365 + l"
    using DayFromYear_step [of y] DaysInYear_leap [of now] by (simp add: y_def l_def)
  have dlo: "DayFromYear y + monthStart m l \<le> Day now"
    using month_bounds(3) [OF now] by (simp add: DayWithinYear_def y_def m_def l_def)
  have n1: "Day now < N"
  proof (cases "m < 11")
    case True
    then show ?thesis
      using month_bounds(4) [OF now] by (simp add: N_def DayWithinYear_def y_def m_def l_def)
  next
    case False
    then show ?thesis
      using year_of_time(2) [OF now] DayFromYear_step [of y] by (simp add: N_def y_def)
  qed
  have m11: "monthStart m l = 334 + l" if "\<not> m < 11"
  proof -
    from that m have "m = 11" by simp
    then show ?thesis by (simp add: monthStart_def)
  qed
  have n3: "N \<le> DayFromYear y + monthStart m l + 31"
    using monthStart_table(3) [OF m l] m11 next_year by (auto simp: N_def)
  have n4: "N \<le> DayFromYear (y + 1)"
  proof (cases "m < 11")
    case True
    then have "0 \<le> m + 1" "m + 1 \<le> 11" using m by simp_all
    from monthStart_table(1) [OF this l] True show ?thesis by (simp add: N_def next_year)
  next
    case False
    then show ?thesis by (simp add: N_def)
  qed
  define L where "L = N - 1"
  have L1: "Day now \<le> L" using n1 by (simp add: L_def)
  have L0: "0 \<le> L" using L1 Day_nonneg [OF now] by simp
  have mk: "MakeDay y (m + 1) 0 = L"
  proof (cases "m < 11")
    case True
    then have "(m + 1) div 12 = 0" "(m + 1) mod 12 = m + 1" using m by simp_all
    then show ?thesis using True by (simp add: MakeDay_def Let_def lif L_def N_def)
  next
    case False
    with m have "m = 11" by simp
    then show ?thesis by (simp add: MakeDay_def Let_def L_def N_def monthStart_def)
  qed
  define e where "e = MakeDate L (msPerDay - 1)"
  have r: "0 \<le> msPerDay - 1" "msPerDay - 1 < msPerDay" using msPerDay_pos by simp_all
  have e0: "0 \<le> e" using L0 r(1) msPerDay_pos by (simp add: e_def MakeDate_def)
  have now_le: "now \<le> e"
  proof -
    have "now = Day now * msPerDay + TimeWithinDay now"
      using time_split [of now] by (simp add: MakeDate_def)
    also have "\<dots> \<le> L * msPerDay + (msPerDay - 1)"
      using L1 TimeWithinDay_bounds(2) [of now] msPerDay_pos
      by (intro add_mono mult_right_mono) simp_all
    finally show ?thesis by (simp add: e_def MakeDate_def)
  qed
  have e_hi: "e \<le> 8640000000000000"
  proof -
    have "L \<le> Day now + 30" using n3 dlo by (simp add: L_def)
    then have "L * msPerDay \<le> (Day now + 30) * msPerDay"
      using msPerDay_pos by (intro mult_right_mono) simp_all
    then have "e \<le> Day now * msPerDay + 31 * msPerDay"
      by (simp add: e_def MakeDate_def algebra_simps)
    also have "\<dots> \<le> now + 32 * msPerDay" using Day_le [OF now] msPerDay_pos by simp
    finally show ?thesis using room by simp
  qed
  have utc: "Date_UTC y (m + 1) 0 23 59 59 999 = Some e"
  proof -
    have "MakeTime 23 59 59 999 = msPerDay - 1" by (simp add: MakeTime_def msPerDay_def)
    then show ?thesis
      using y70 by (simp add: Date_UTC_def Let_def mk e_def [symmetric] TimeClip_in [OF e0 e_hi])
  qed
  have norm: "(if truthyStr w then w else ''This month'') \<noteq> ''This weekend''"
    "(if truthyStr w then w else ''This month'') \<noteq> ''Next 7 days''"
    "(if truthyStr w then w else ''This month'') \<noteq> ''Next 2 weeks''"
    using w by simp_all
  have res: "w_end (getTimeWindowRange now w) = Some e"
    unfolding getTimeWindowRange_def Let_def y_def [symmetric] m_def [symmetric]
    using norm by (simp add: utc TimeClip_in [OF e0 e_hi])
  have yl: "DayFromYear y \<le> L"
    using dlo L1 monthStart_table(4) [OF m l] by simp
  have yh: "L < DayFromYear (y + 1)" using n4 by (simp add: L_def)
  have lo: "monthStart m (if DaysInYear y = 366 then 1 else 0) \<le> L - DayFromYear y"
    unfolding lif using dlo L1 by simp
  have hi: "L - DayFromYear y < monthStart (m + 1) (if DaysInYear y = 366 then 1 else 0)"
    if "m < 11"
    unfolding lif using that by (simp add: L_def N_def)
  have ye: "YearFromTime e = y" and me: "MonthFromTime e = m"
    unfolding e_def using month_of_day [OF L0 yl yh m lo hi r] by simp_all
  have twd: "TimeWithinDay e = msPerDay - 1"
    unfolding e_def by (rule Day_MakeDate(2) [OF r])
  have succ: "e + 1 = MakeDate N 0" by (simp add: e_def L_def MakeDate_def algebra_simps)
  have N0: "0 \<le> N" using L0 by (simp add: L_def)
  have z: "(0::int) \<le> 0" "0 < msPerDay" using msPerDay_pos by simp_all
  have nextm: "MonthFromTime (e + 1) \<noteq> m"
  proof (cases "m < 11")
    case True
    then have m1: "0 \<le> m + 1" "m + 1 \<le> 11" using m by simp_all
    have a: "DayFromYear y \<le> N"
      using monthStart_table(4) [OF m1 l] True by (simp add: N_def)
    have b: "N < DayFromYear (y + 1)"
      using monthStart_table(1) [OF m1 l] True by (simp add: N_def next_year)
    have c: "monthStart (m + 1) (if DaysInYear y = 366 then 1 else 0) \<le> N - DayFromYear y"
      unfolding lif using True by (simp add: N_def)
    have d: "N - DayFromYear y < monthStart (m + 1 + 1) (if DaysInYear y = 366 then 1 else 0)"
      if "m + 1 < 11"
      unfolding lif using monthStart_table(2) [OF m1 l that] True by (simp add: N_def)
    have "MonthFromTime (MakeDate N 0) = m + 1"
      by (rule month_of_day(2) [OF N0 a b m1 c d z])
    then show ?thesis by (simp add: succ)
  next
    case False
    with m have m11': "m = 11" by simp
    have N: "N = DayFromYear (y + 1)" using False by (simp add: N_def)
    have a: "DayFromYear (y + 1) \<le> N" by (simp add: N)
    have b: "N < DayFromYear (y + 1 + 1)" unfolding N by (rule DayFromYear_less)
    have c: "monthStart 0 (if DaysInYear (y + 1) = 366 then 1 else 0) \<le> N - DayFromYear (y + 1)"
      by (simp add: N monthStart_def)
    have d: "N - DayFromYear (y + 1) < monthStart (0 + 1) (if DaysInYear (y + 1) = 366 then 1 else 0)"
      by (simp add: N monthStart_def)
    have "MonthFromTime (MakeDate N 0) = 0"
      by (rule month_of_day(2) [OF N0 a b _ _ c d z]) simp_all
    then show ?thesis by (simp add: succ m11')
  qed
  show ?thesis
    using res now_le ye me twd nextm by (auto simp: y_def m_def)
qed

lemma window_start: "w_start (getTimeWindowRange now w) = Some now"
  by (simp add: getTimeWindowRange_def Let_def)

text \<open>
  \<^bold>\<open>C6\<close> (time window). \<open>now\<close> is the reading of the clock: a time value not before
  1970 and more than 32 days before the last one a \<open>Date\<close> can hold. For every value of
  \<open>eventWindow\<close> the start is \<open>now\<close> and the end is a valid date not before it.
  For \<open>This weekend\<close> the end is the last millisecond of a Sunday (week day 0), the first
  one from today on: today when today is a Sunday. For a value that is none of the three
  known ones, the empty text included, the end is the last millisecond of the month of
  \<open>now\<close>: it has the year and the month of \<open>now\<close>, and the millisecond after it has
  another month.
\<close>

theorem time_window_resolver:
  "0 \<le> now \<and> now + 32 * msPerDay \<le> 8640000000000000 \<longrightarrow>
     w_start (getTimeWindowRange now w) = Some now
     \<and> (\<exists>e. w_end (getTimeWindowRange now w) = Some e \<and> now \<le> e)
     \<and> (w = ''This weekend'' \<longrightarrow>
          (\<exists>e. w_end (getTimeWindowRange now w) = Some e \<and> WeekDay e = 0 \<and>
               TimeWithinDay e = msPerDay - 1 \<and>
               Day e = Day now + (7 - WeekDay now) mod 7 \<and>
               Day now \<le> Day e \<and> Day e < Day now + 7 \<and>
               (WeekDay now = 0 \<longrightarrow> Day e = Day now)))
     \<and> (w \<noteq> ''This weekend'' \<and> w \<noteq> ''Next 7 days'' \<and> w \<noteq> ''Next 2 weeks'' \<longrightarrow>
          (\<exists>e. w_end (getTimeWindowRange now w) = Some e \<and>
               YearFromTime e = YearFromTime now \<and> MonthFromTime e = MonthFromTime now \<and>
               TimeWithinDay e = msPerDay - 1 \<and> MonthFromTime (e + 1) \<noteq> MonthFromTime now))
     \<and> (w = ''Next 7 days'' \<longrightarrow> w_end (getTimeWindowRange now w) = Some (now + 7 * msPerDay))
     \<and> (w = ''Next 2 weeks'' \<longrightarrow> w_end (getTimeWindowRange now w) = Some (now + 14 * msPerDay))"
proof (intro impI)
  assume "0 \<le> now \<and> now + 32 * msPerDay \<le> 8640000000000000"
  then have now: "0 \<le> now" and room: "now + 32 * msPerDay \<le> 8640000000000000" by simp_all
  define d where "d = (7 - WeekDay now) mod 7"
  define e where "e = MakeDate (Day now + d) (msPerDay - 1)"
  have r: "0 \<le> msPerDay - 1" "msPerDay - 1 < msPerDay" using msPerDay_pos by simp_all
  have d: "0 \<le> d" "d < 7" "WeekDay now = 0 \<Longrightarrow> d = 0" by (simp_all add: d_def)
  have we: "w_end (getTimeWindowRange now ''This weekend'') = Some e"
    unfolding e_def d_def by (rule weekend_end [OF now room])
  have day: "Day e = Day now + d" and twd: "TimeWithinDay e = msPerDay - 1"
    unfolding e_def by (rule Day_MakeDate [OF r])+
  have sun: "WeekDay e = 0"
    using sunday [of "Day now + 4"] by (simp add: WeekDay_def day d_def algebra_simps)
  have le: "now \<le> e"
  proof -
    have "now = Day now * msPerDay + TimeWithinDay now"
      using time_split [of now] by (simp add: MakeDate_def)
    also have "\<dots> \<le> (Day now + d) * msPerDay + (msPerDay - 1)"
      using d(1) TimeWithinDay_bounds(2) [of now] msPerDay_pos
      by (intro add_mono mult_right_mono) simp_all
    finally show ?thesis by (simp add: e_def MakeDate_def)
  qed
  have weekend: "\<exists>e. w_end (getTimeWindowRange now w) = Some e \<and> WeekDay e = 0 \<and>
               TimeWithinDay e = msPerDay - 1 \<and>
               Day e = Day now + (7 - WeekDay now) mod 7 \<and>
               Day now \<le> Day e \<and> Day e < Day now + 7 \<and>
               (WeekDay now = 0 \<longrightarrow> Day e = Day now)" if "w = ''This weekend''"
    using that we sun twd day d by (auto simp: d_def)
  note days = next_days_end [OF now room]
  have month: "\<exists>e. w_end (getTimeWindowRange now w) = Some e \<and> now \<le> e \<and>
           YearFromTime e = YearFromTime now \<and> MonthFromTime e = MonthFromTime now \<and>
           TimeWithinDay e = msPerDay - 1 \<and> MonthFromTime (e + 1) \<noteq> MonthFromTime now"
    if "w \<noteq> ''This weekend''" "w \<noteq> ''Next 7 days''" "w \<noteq> ''Next 2 weeks''"
    using that by (rule month_end [OF now room])
  have ordered: "\<exists>e. w_end (getTimeWindowRange now w) = Some e \<and> now \<le> e"
  proof -
    consider "w = ''This weekend''" | "w = ''Next 7 days''" | "w = ''Next 2 weeks''"
      | "w \<noteq> ''This weekend''" "w \<noteq> ''Next 7 days''" "w \<noteq> ''Next 2 weeks''"
      by blast
    then show ?thesis
    proof cases
      case 1
      then show ?thesis using we le by simp
    next
      case 2
      then show ?thesis using days(1) msPerDay_pos by simp
    next
      case 3
      then show ?thesis using days(2) msPerDay_pos by simp
    next
      case 4
      then show ?thesis using month by blast
    qed
  qed
  show "w_start (getTimeWindowRange now w) = Some now
     \<and> (\<exists>e. w_end (getTimeWindowRange now w) = Some e \<and> now \<le> e)
     \<and> (w = ''This weekend'' \<longrightarrow>
          (\<exists>e. w_end (getTimeWindowRange now w) = Some e \<and> WeekDay e = 0 \<and>
               TimeWithinDay e = msPerDay - 1 \<and>
               Day e = Day now + (7 - WeekDay now) mod 7 \<and>
               Day now \<le> Day e \<and> Day e < Day now + 7 \<and>
               (WeekDay now = 0 \<longrightarrow> Day e = Day now)))
     \<and> (w \<noteq> ''This weekend'' \<and> w \<noteq> ''Next 7 days'' \<and> w \<noteq> ''Next 2 weeks'' \<longrightarrow>
          (\<exists>e. w_end (getTimeWindowRange now w) = Some e \<and>
               YearFromTime e = YearFromTime now \<and> MonthFromTime e = MonthFromTime now \<and>
               TimeWithinDay e = msPerDay - 1 \<and> MonthFromTime (e + 1) \<noteq> MonthFromTime now))
     \<and> (w = ''Next 7 days'' \<longrightarrow> w_end (getTimeWindowRange now w) = Some (now + 7 * msPerDay))
     \<and> (w = ''Next 2 weeks'' \<longrightarrow> w_end (getTimeWindowRange now w) = Some (now + 14 * msPerDay))"
    using window_start [of now w] ordered weekend month days by blast
qed

lemma sample_windows:
  "w_end (getTimeWindowRange 1793874600000 ''This weekend'') = Some 1794182399999"
  "w_end (getTimeWindowRange 1794139200000 ''This weekend'') = Some 1794182399999"
  "w_end (getTimeWindowRange 1793874600000 ''Some day'') = Some 1796083199999"
  "w_end (getTimeWindowRange 1793874600000 []) = Some 1796083199999"
  "WeekDay 1793874600000 = 4" "WeekDay 1794139200000 = 0" "WeekDay 1794182399999 = 0"
  "Day 1793874600000 = 20762" "Day 1794139200000 = 20765" "Day 1794182399999 = 20765"
  "YearFromTime 1793874600000 = 2026" "MonthFromTime 1793874600000 = 10"
  "YearFromTime 1796083199999 = 2026" "MonthFromTime 1796083199999 = 10"
  "MonthFromTime (1796083199999 + 1) = 11"
  by code_simp+

lemma sample_clock:
  "0 \<le> (1793874600000::int) \<and> 1793874600000 + 32 * msPerDay \<le> 8640000000000000"
  "0 \<le> (1794139200000::int) \<and> 1794139200000 + 32 * msPerDay \<le> 8640000000000000"
  by (simp_all add: msPerDay_def)

theorem time_window_resolver_witness:
  "w_start (getTimeWindowRange 1793874600000 ''This weekend'') = Some 1793874600000
   \<and> w_end (getTimeWindowRange 1793874600000 ''This weekend'') = Some 1794182399999
   \<and> WeekDay 1793874600000 = 4 \<and> WeekDay 1794182399999 = 0
   \<and> Day 1794182399999 = Day 1793874600000 + 3
   \<and> WeekDay 1794139200000 = 0
   \<and> w_end (getTimeWindowRange 1794139200000 ''This weekend'') = Some 1794182399999
   \<and> Day 1794182399999 = Day 1794139200000
   \<and> w_end (getTimeWindowRange 1793874600000 ''Some day'') = Some 1796083199999
   \<and> MonthFromTime 1796083199999 = MonthFromTime 1793874600000
   \<and> MonthFromTime (1796083199999 + 1) \<noteq> MonthFromTime 1793874600000
   \<and> w_end (getTimeWindowRange 1793874600000 ''Next 7 days'') = Some 1794479400000"
proof -
  note thu = mp [OF time_window_resolver [of 1793874600000] sample_clock(1)]
  note sun = mp [OF time_window_resolver [of 1794139200000] sample_clock(2)]
  have a: "w_start (getTimeWindowRange 1793874600000 ''This weekend'') = Some 1793874600000"
    using thu [of "''This weekend''"] by (rule conjunct1)
  have b: "\<exists>e. w_end (getTimeWindowRange 1793874600000 ''This weekend'') = Some e \<and> WeekDay e = 0 \<and>
               TimeWithinDay e = msPerDay - 1 \<and>
               Day e = Day 1793874600000 + (7 - WeekDay 1793874600000) mod 7 \<and>
               Day 1793874600000 \<le> Day e \<and> Day e < Day 1793874600000 + 7 \<and>
               (WeekDay 1793874600000 = 0 \<longrightarrow> Day e = Day 1793874600000)"
    using thu [of "''This weekend''", THEN conjunct2, THEN conjunct2, THEN conjunct1] by simp
  have b': "WeekDay 1794182399999 = 0 \<and> Day 1794182399999 = Day 1793874600000 + 3"
    using b unfolding sample_windows(1) by (auto simp: sample_windows(5))
  have c: "\<exists>e. w_end (getTimeWindowRange 1794139200000 ''This weekend'') = Some e \<and> WeekDay e = 0 \<and>
               TimeWithinDay e = msPerDay - 1 \<and>
               Day e = Day 1794139200000 + (7 - WeekDay 1794139200000) mod 7 \<and>
               Day 1794139200000 \<le> Day e \<and> Day e < Day 1794139200000 + 7 \<and>
               (WeekDay 1794139200000 = 0 \<longrightarrow> Day e = Day 1794139200000)"
    using sun [of "''This weekend''", THEN conjunct2, THEN conjunct2, THEN conjunct1] by simp
  have c': "Day 1794182399999 = Day 1794139200000"
    using c unfolding sample_windows(2) by (auto simp: sample_windows(6))
  have d: "\<exists>e. w_end (getTimeWindowRange 1793874600000 ''Some day'') = Some e \<and>
               YearFromTime e = YearFromTime 1793874600000 \<and>
               MonthFromTime e = MonthFromTime 1793874600000 \<and>
               TimeWithinDay e = msPerDay - 1 \<and>
               MonthFromTime (e + 1) \<noteq> MonthFromTime 1793874600000"
    using thu [of "''Some day''", THEN conjunct2, THEN conjunct2, THEN conjunct2, THEN conjunct1]
    by simp
  have d': "MonthFromTime 1796083199999 = MonthFromTime 1793874600000
      \<and> MonthFromTime (1796083199999 + 1) \<noteq> MonthFromTime 1793874600000"
    using d unfolding sample_windows(3) by auto
  have e: "w_end (getTimeWindowRange 1793874600000 ''Next 7 days'') = Some 1794479400000"
    using thu [of "''Next 7 days''", THEN conjunct2, THEN conjunct2, THEN conjunct2,
        THEN conjunct2, THEN conjunct1]
    by (simp add: msPerDay_def)
  show ?thesis
    using a b' c' d' e by (simp add: sample_windows(1,2,3,5,6))
qed

end
